theory Spec2Isabelle
  imports Complex_Main
begin

section \<open>Values, strings and the interpreter's tables\<close>

text \<open>
  The development embeds \<^verbatim>\<open>Calculate.py\<close>: the price parser \<^verbatim>\<open>_parse_price\<close>, the inflation
  resolver \<^verbatim>\<open>get_inflation_from_worldbank\<close>, the projector \<^verbatim>\<open>_project_price_over_months\<close>,
  \<^verbatim>\<open>forecast_price\<close> and the forecasting loop of \<^verbatim>\<open>main\<close>.

  A Python \<^verbatim>\<open>str\<close> is a sequence of Unicode code points, so a string is a list of
  natural numbers. What Python does on ASCII characters is written out below. What it does
  on the other code points comes from the Unicode database of the interpreter, which is no
  part of the repository: those tables, the \<^verbatim>\<open>repr\<close> of a float and the interpreter's
  limit on the digits of an integer that is converted from or to text
  (\<^verbatim>\<open>sys.get_int_max_str_digits()\<close>, 0 for no limit) are the fields of the record
  \<open>builtins\<close> that every function takes as its first argument.

  A Python \<^verbatim>\<open>float\<close> is modelled by the real number it denotes, so the rounding error of
  binary floating point is outside the model. The float operation of the source that can
  raise, the power of line 173, raises \<^verbatim>\<open>OverflowError\<close> in the model when the exact
  power is beyond the largest double; the infinities and the not-a-number, which a product or
  \<^verbatim>\<open>float\<close> of a long text can give without raising, are outside the model. Each
  exception that the source can raise is a value of \<open>py_error\<close>, and a function that can
  raise returns a sum with the exception on the left.
\<close>

type_synonym ustr = "nat list"

definition ascii :: "string \<Rightarrow> ustr" where
  "ascii s = map of_char s"

record builtins =
  nonascii_decimal :: "nat \<Rightarrow> nat option"
  nonascii_space :: "nat \<Rightarrow> bool"
  nonascii_upper :: "nat \<Rightarrow> ustr"
  nonascii_lower :: "ustr \<Rightarrow> nat \<Rightarrow> ustr"
  float_repr :: "real \<Rightarrow> ustr"
  int_max_str_digits :: nat

text \<open>
  The tables cut down to ASCII: no other code point is a digit or a space or has a case.
  They serve to run the model on ASCII inputs, where the tables are not consulted. The limit
  on the digits of an integer is the interpreter's default.
\<close>

definition ascii_builtins :: builtins where
  "ascii_builtins =
     \<lparr>nonascii_decimal = (\<lambda>c. None), nonascii_space = (\<lambda>c. False),
      nonascii_upper = (\<lambda>c. [c]), nonascii_lower = (\<lambda>s i. [s ! i]),
      float_repr = (\<lambda>x. []), int_max_str_digits = 4300\<rparr>"

datatype py_error = ValueError | TypeError | AttributeError | IndexError | KeyError
  | OverflowError

text \<open>The value of a field of a product record: null, a string or a number.\<close>

datatype pyval = PNone | PStr ustr | PInt int | PFloat real

text \<open>A decoded JSON document, as \<^verbatim>\<open>resp.json()\<close> returns it.\<close>

datatype json = JNull | JBool bool | JNum real | JStr ustr | JArr "json list"
  | JObj "(ustr \<times> json) list"

subsection \<open>Character classes and string methods\<close>

definition ascii_letter :: "nat \<Rightarrow> bool" where
  "ascii_letter c \<longleftrightarrow> (65 \<le> c \<and> c \<le> 90) \<or> (97 \<le> c \<and> c \<le> 122)"

text \<open>\<^verbatim>\<open>Py_UNICODE_TODECIMAL\<close>: the value of a decimal digit (category Nd).\<close>

definition decimal_value :: "builtins \<Rightarrow> nat \<Rightarrow> nat option" where
  "decimal_value B c =
     (if 48 \<le> c \<and> c \<le> 57 then Some (c - 48)
      else if c < 128 then None else nonascii_decimal B c)"

definition is_digit :: "builtins \<Rightarrow> nat \<Rightarrow> bool" where
  "is_digit B c \<longleftrightarrow> decimal_value B c \<noteq> None"

text \<open>\<^verbatim>\<open>Py_UNICODE_ISSPACE\<close>, used by \<^verbatim>\<open>str.strip\<close> and by \<^verbatim>\<open>\s\<close>.\<close>

definition is_space :: "builtins \<Rightarrow> nat \<Rightarrow> bool" where
  "is_space B c =
     (if c < 128 then (9 \<le> c \<and> c \<le> 13) \<or> (28 \<le> c \<and> c \<le> 32)
      else nonascii_space B c)"

definition py_strip :: "builtins \<Rightarrow> ustr \<Rightarrow> ustr" where
  "py_strip B s = rev (dropWhile (is_space B) (rev (dropWhile (is_space B) s)))"

definition upper_char :: "builtins \<Rightarrow> nat \<Rightarrow> ustr" where
  "upper_char B c =
     (if 97 \<le> c \<and> c \<le> 122 then [c - 32] else if c < 128 then [c] else nonascii_upper B c)"

definition py_upper :: "builtins \<Rightarrow> ustr \<Rightarrow> ustr" where
  "py_upper B s = concat (map (upper_char B) s)"

definition lower_at :: "builtins \<Rightarrow> ustr \<Rightarrow> nat \<Rightarrow> ustr" where
  "lower_at B s i =
     (let c = s ! i in
      if 65 \<le> c \<and> c \<le> 90 then [c + 32] else if c < 128 then [c] else nonascii_lower B s i)"

definition py_lower :: "builtins \<Rightarrow> ustr \<Rightarrow> ustr" where
  "py_lower B s = concat (map (lower_at B s) [0..<length s])"

text \<open>\<^verbatim>\<open>s.replace(old, new)\<close> for a one-character \<^verbatim>\<open>old\<close>.\<close>

definition replace_char :: "nat \<Rightarrow> ustr \<Rightarrow> ustr \<Rightarrow> ustr" where
  "replace_char old new s = concat (map (\<lambda>c. if c = old then new else [c]) s)"

subsection \<open>Numbers from and to text\<close>

fun digits_value :: "builtins \<Rightarrow> ustr \<Rightarrow> nat" where
  "digits_value B [] = 0"
| "digits_value B (c # cs) =
     (case decimal_value B c of None \<Rightarrow> 0 | Some d \<Rightarrow> d * 10 ^ length cs + digits_value B cs)"

text \<open>
  \<^verbatim>\<open>float(s)\<close>, for the strings the parser hands to it: these consist of signs, dots and
  decimal digits only (lemmas \<open>fallback_alphabet\<close> and \<open>token_alphabet\<close> below). On such a
  string Python accepts an optional sign followed by digits with at most one dot and at
  least one digit, and raises \<^verbatim>\<open>ValueError\<close> otherwise.
\<close>

definition py_float :: "builtins \<Rightarrow> ustr \<Rightarrow> py_error + real" where
  "py_float B s =
     (let (sgn, r) = (case s of [] \<Rightarrow> (1, [])
                      | c # t \<Rightarrow> if c = 43 then (1, t) else if c = 45 then (- 1, t) else (1, s));
          ip = takeWhile (is_digit B) r;
          r1 = dropWhile (is_digit B) r
      in case r1 of
           [] \<Rightarrow> if ip = [] then Inl ValueError else Inr (sgn * real (digits_value B ip))
         | c # fr \<Rightarrow>
             if c = 46 \<and> list_all (is_digit B) fr \<and> \<not> (ip = [] \<and> fr = [])
             then Inr (sgn * (real (digits_value B ip)
                              + real (digits_value B fr) / 10 ^ length fr))
             else Inl ValueError)"

text \<open>\<^verbatim>\<open>str(n)\<close> for an integer.\<close>

function nat_digits :: "nat \<Rightarrow> ustr" where
  "nat_digits n = (if n < 10 then [48 + n] else nat_digits (n div 10) @ [48 + n mod 10])"
  by pat_completeness auto
termination
  by (relation "measure id") auto

declare nat_digits.simps [simp del]

text \<open>The characters that \<^verbatim>\<open>str(n)\<close> consists of, a leading sign apart.\<close>

definition ascii_digit :: "nat \<Rightarrow> bool" where
  "ascii_digit c \<longleftrightarrow> 48 \<le> c \<and> c \<le> 57"

definition int_str :: "int \<Rightarrow> ustr" where
  "int_str i = (if i < 0 then 45 # nat_digits (nat (- i)) else nat_digits (nat i))"

text \<open>
  An integer with more digits than the limit is converted neither to text nor from text:
  \<^verbatim>\<open>str\<close> and \<^verbatim>\<open>int\<close> raise \<^verbatim>\<open>ValueError\<close>.
\<close>

definition digits_exceed :: "builtins \<Rightarrow> nat \<Rightarrow> bool" where
  "digits_exceed B k \<longleftrightarrow> 0 < int_max_str_digits B \<and> int_max_str_digits B < k"

text \<open>The text that \<^verbatim>\<open>str(x)\<close> returns, and the inputs on which it raises instead.\<close>

fun py_str :: "builtins \<Rightarrow> pyval \<Rightarrow> ustr" where
  "py_str B PNone = ascii ''None''"
| "py_str B (PStr s) = s"
| "py_str B (PInt i) = int_str i"
| "py_str B (PFloat x) = float_repr B x"

fun str_raises :: "builtins \<Rightarrow> pyval \<Rightarrow> bool" where
  "str_raises B (PInt i) = digits_exceed B (length (nat_digits (nat \<bar>i\<bar>)))"
| "str_raises B v = False"

section \<open>The price parser\<close>

text \<open>The table \<^verbatim>\<open>CURRENCY_SYMBOLS\<close>, as an association list.\<close>

definition CURRENCY_SYMBOLS :: "(ustr \<times> ustr) list" where
  "CURRENCY_SYMBOLS =
     [(ascii ''USD'', [36]), (ascii ''EUR'', [8364]), (ascii ''GBP'', [163]),
      (ascii ''JPY'', [165]), (ascii ''TRY'', [8378]), (ascii ''IRR'', [65020]),
      (ascii ''SEK'', ascii ''kr''), ([], [])]"

definition dict_get :: "('k \<times> 'v) list \<Rightarrow> 'k \<Rightarrow> 'v \<Rightarrow> 'v" where
  "dict_get d k dflt = (case map_of d k of None \<Rightarrow> dflt | Some v \<Rightarrow> v)"

subsection \<open>The pattern \<^verbatim>\<open>_price_pattern\<close>\<close>

text \<open>
  \<^verbatim>\<open>([A-Za-z]{3})?\s*([\$...]?)([-+\d,.]+)\s*([A-Za-z]{3})?\<close> is matched the way a
  backtracking engine does it: each piece takes a continuation for the rest of the pattern,
  tries its alternatives in the engine's order (greedy first) and keeps the first one under
  which the continuation succeeds.
\<close>

definition currency_sign :: "nat \<Rightarrow> bool" where
  "currency_sign c \<longleftrightarrow> c \<in> {36, 165, 163, 8364, 8378, 65020}"

definition num_char :: "builtins \<Rightarrow> nat \<Rightarrow> bool" where
  "num_char B c \<longleftrightarrow> c = 45 \<or> c = 43 \<or> is_digit B c \<or> c = 44 \<or> c = 46"

definition or_else :: "'a option \<Rightarrow> 'a option \<Rightarrow> 'a option" where
  "or_else a b = (case a of Some r \<Rightarrow> Some r | None \<Rightarrow> b)"

text \<open>\<^verbatim>\<open>([A-Za-z]{3})?\<close>\<close>

fun code_opt :: "(ustr option \<Rightarrow> ustr \<Rightarrow> 'a option) \<Rightarrow> ustr \<Rightarrow> 'a option" where
  "code_opt k (a # b # c # r) =
     (if ascii_letter a \<and> ascii_letter b \<and> ascii_letter c
      then or_else (k (Some [a, b, c]) r) (k None (a # b # c # r))
      else k None (a # b # c # r))"
| "code_opt k s = k None s"

text \<open>\<^verbatim>\<open>\s*\<close>\<close>

fun ws_star :: "builtins \<Rightarrow> (ustr \<Rightarrow> 'a option) \<Rightarrow> ustr \<Rightarrow> 'a option" where
  "ws_star B k [] = k []"
| "ws_star B k (c # cs) =
     (if is_space B c then or_else (ws_star B k cs) (k (c # cs)) else k (c # cs))"

text \<open>\<^verbatim>\<open>([\$...]?)\<close>\<close>

fun sign_opt :: "(ustr \<Rightarrow> ustr \<Rightarrow> 'a option) \<Rightarrow> ustr \<Rightarrow> 'a option" where
  "sign_opt k [] = k [] []"
| "sign_opt k (c # cs) =
     (if currency_sign c then or_else (k [c] cs) (k [] (c # cs)) else k [] (c # cs))"

text \<open>\<^verbatim>\<open>([-+\d,.]+)\<close>: \<open>num_star\<close> extends the characters taken so far.\<close>

fun num_star :: "builtins \<Rightarrow> (ustr \<Rightarrow> ustr \<Rightarrow> 'a option) \<Rightarrow> ustr \<Rightarrow> ustr \<Rightarrow> 'a option" where
  "num_star B k acc [] = k acc []"
| "num_star B k acc (c # cs) =
     (if num_char B c then or_else (num_star B k (acc @ [c]) cs) (k acc (c # cs))
      else k acc (c # cs))"

fun num_plus :: "builtins \<Rightarrow> (ustr \<Rightarrow> ustr \<Rightarrow> 'a option) \<Rightarrow> ustr \<Rightarrow> 'a option" where
  "num_plus B k [] = None"
| "num_plus B k (c # cs) = (if num_char B c then num_star B k [c] cs else None)"

type_synonym groups = "ustr option \<times> ustr \<times> ustr \<times> ustr option"

text \<open>The pattern matched at the start of \<open>s\<close>; the result is \<^verbatim>\<open>m.groups()\<close>.\<close>

definition match_here :: "builtins \<Rightarrow> ustr \<Rightarrow> groups option" where
  "match_here B s =
     code_opt (\<lambda>gcode1 r1.
       ws_star B (\<lambda>r2.
         sign_opt (\<lambda>gsym r3.
           num_plus B (\<lambda>gnum r4.
             ws_star B (\<lambda>r5.
               code_opt (\<lambda>gcode2 r6. Some (gcode1, gsym, gnum, gcode2)) r5) r4) r3) r2) r1) s"

text \<open>\<^verbatim>\<open>_price_pattern.search(s)\<close>: the match at the leftmost position that has one.\<close>

fun price_search :: "builtins \<Rightarrow> ustr \<Rightarrow> groups option" where
  "price_search B [] = match_here B []"
| "price_search B (c # cs) = or_else (match_here B (c # cs)) (price_search B cs)"

subsection \<open>\<^verbatim>\<open>_parse_price\<close>\<close>

text \<open>\<^verbatim>\<open>re.sub(r"[^0-9.-]", "", s)\<close>\<close>

definition fallback_clean :: "ustr \<Rightarrow> ustr" where
  "fallback_clean s = filter (\<lambda>c. (48 \<le> c \<and> c \<le> 57) \<or> c = 46 \<or> c = 45) s"

text \<open>The branch taken when the pattern has no match (lines 134 to 138).\<close>

definition fallback_parse :: "builtins \<Rightarrow> ustr \<Rightarrow> ustr \<Rightarrow> (real \<times> ustr \<times> ustr) option" where
  "fallback_parse B s default_currency =
     (case py_float B (fallback_clean s) of
        Inr x \<Rightarrow> Some (x, dict_get CURRENCY_SYMBOLS default_currency [], default_currency)
      | Inl e \<Rightarrow> None)"

text \<open>\<^verbatim>\<open>a or b\<close> on strings, and on an optional group.\<close>

definition str_or :: "ustr \<Rightarrow> ustr \<Rightarrow> ustr" where
  "str_or a b = (if a = [] then b else a)"

definition group_or :: "ustr option \<Rightarrow> ustr \<Rightarrow> ustr" where
  "group_or g b = (case g of None \<Rightarrow> b | Some a \<Rightarrow> str_or a b)"

text \<open>The text the pattern is run on (lines 128 and 129).\<close>

definition price_text :: "builtins \<Rightarrow> pyval \<Rightarrow> ustr" where
  "price_text B price_str = replace_char 160 [32] (py_strip B (py_str B price_str))"

text \<open>The branch taken when the pattern has matched (lines 140 to 153).\<close>

definition matched_parse ::
  "builtins \<Rightarrow> groups \<Rightarrow> ustr \<Rightarrow> (real \<times> ustr \<times> ustr) option" where
  "matched_parse B g default_currency =
     (case g of (gcode1, gsym, gnum, gcode2) \<Rightarrow>
        let currency_code = group_or gcode1 (group_or gcode2 default_currency);
            num = replace_char 44 [] gnum
        in case (case py_float B num of
                   Inr x \<Rightarrow> Inr x
                 | Inl e \<Rightarrow> py_float B (replace_char 32 [] num)) of
             Inl e \<Rightarrow> None
           | Inr number \<Rightarrow>
               Some (number,
                     dict_get CURRENCY_SYMBOLS (py_upper B currency_code)
                       (str_or gsym (dict_get CURRENCY_SYMBOLS default_currency [])),
                     py_upper B currency_code))"

text \<open>
  \<^verbatim>\<open>_parse_price\<close>. \<open>None\<close> is the tuple \<^verbatim>\<open>(None, None, None)\<close>. Both calls of
  \<^verbatim>\<open>float\<close> sit inside \<^verbatim>\<open>try\<close> blocks that catch every exception; the call of
  \<^verbatim>\<open>str\<close> at line 128 sits in none, so what it raises leaves the function.
\<close>

definition parse_price :: "builtins \<Rightarrow> pyval \<Rightarrow> ustr \<Rightarrow> py_error + (real \<times> ustr \<times> ustr) option" where
  "parse_price B price_str default_currency =
     (if price_str = PNone then Inr None
      else if str_raises B price_str then Inl ValueError
      else case price_search B (price_text B price_str) of
             None \<Rightarrow> Inr (fallback_parse B (price_text B price_str) default_currency)
           | Some g \<Rightarrow> Inr (matched_parse B g default_currency))"

text \<open>What a match looks like, and the code that the two groups and the default give.\<close>

definition three_letters :: "ustr \<Rightarrow> bool" where
  "three_letters g \<longleftrightarrow> length g = 3 \<and> list_all ascii_letter g"

definition group_text :: "ustr option \<Rightarrow> ustr" where
  "group_text g = (case g of None \<Rightarrow> [] | Some a \<Rightarrow> a)"

definition code_group :: "ustr option \<Rightarrow> bool" where
  "code_group g = (case g of None \<Rightarrow> True | Some a \<Rightarrow> three_letters a)"

definition match_shape :: "builtins \<Rightarrow> groups \<Rightarrow> ustr \<Rightarrow> bool" where
  "match_shape B g t =
     (case g of (gcode1, gsym, gnum, gcode2) \<Rightarrow>
        code_group gcode1 \<and> code_group gcode2
        \<and> (gsym = [] \<or> (\<exists>c. gsym = [c] \<and> currency_sign c))
        \<and> gnum \<noteq> [] \<and> list_all (num_char B) gnum
        \<and> (\<exists>w1 w2 rest. list_all (is_space B) w1 \<and> list_all (is_space B) w2
              \<and> t = group_text gcode1 @ w1 @ gsym @ gnum @ w2 @ group_text gcode2 @ rest))"

definition code_precedence :: "ustr option \<Rightarrow> ustr option \<Rightarrow> ustr \<Rightarrow> ustr" where
  "code_precedence gcode1 gcode2 default_currency =
     (case gcode1 of Some c \<Rightarrow> c
      | None \<Rightarrow> (case gcode2 of Some c \<Rightarrow> c | None \<Rightarrow> default_currency))"

section \<open>The projector\<close>

text \<open>
  \<^verbatim>\<open>round(x, 2)\<close>: to the nearest multiple of one hundredth, a tie going to the even one.
\<close>

definition round_half_even :: "real \<Rightarrow> int" where
  "round_half_even x =
     (let f = \<lfloor>x\<rfloor>; d = x - of_int f
      in if d < 1 / 2 then f else if 1 / 2 < d then f + 1 else if even f then f else f + 1)"

definition py_round2 :: "real \<Rightarrow> real" where
  "py_round2 x = of_int (round_half_even (x * 100)) / 100"

definition monthly_rate :: "real \<Rightarrow> real" where
  "monthly_rate annual_inflation_pct = (1 + annual_inflation_pct / 100) powr (1 / 12) - 1"

text \<open>
  The largest double, \<open>2^1024 - 2^971\<close>, and \<^verbatim>\<open>b ** m\<close> for a float \<open>b\<close> and an integer
  \<open>m\<close> that is not negative: Python raises \<^verbatim>\<open>OverflowError\<close> when the power is out of
  the range of the doubles.
\<close>

definition double_max :: real where
  "double_max = (2 ^ 53 - 1) * 2 ^ 971"

definition float_pow :: "real \<Rightarrow> nat \<Rightarrow> py_error + real" where
  "float_pow b m = (if double_max < \<bar>b ^ m\<bar> then Inl OverflowError else Inr (b ^ m))"

text \<open>
  The list comprehension of line 173 over the months \<open>ms\<close>: the entries are computed in
  order, and the first power that overflows ends the computation.
\<close>

fun price_entries :: "real \<Rightarrow> real \<Rightarrow> nat list \<Rightarrow> py_error + real list" where
  "price_entries start_price b [] = Inr []"
| "price_entries start_price b (m # ms) =
     (case float_pow b m of
        Inl e \<Rightarrow> Inl e
      | Inr x \<Rightarrow>
          (case price_entries start_price b ms of
             Inl e \<Rightarrow> Inl e
           | Inr prices \<Rightarrow> Inr (py_round2 (start_price * x) # prices)))"

text \<open>
  Lines 172 to 174 for a numeric rate. A negative base raised to \<^verbatim>\<open>1 / 12.0\<close> is a
  complex number in Python, and \<^verbatim>\<open>round\<close> raises \<^verbatim>\<open>TypeError\<close> on the first entry
  computed from it; with no entry to compute the list is empty.
\<close>

definition project_number :: "real \<Rightarrow> real \<Rightarrow> int \<Rightarrow> py_error + real list option" where
  "project_number start_price p months =
     (if 1 + p / 100 < 0
      then (if 0 < months + 1 then Inl TypeError else Inr (Some []))
      else (case price_entries start_price (1 + monthly_rate p) [0..<nat (months + 1)] of
              Inl e \<Rightarrow> Inl e
            | Inr prices \<Rightarrow> Inr (Some prices)))"

text \<open>
  \<^verbatim>\<open>_project_price_over_months\<close>. The rate is what the resolver took from the JSON
  document: \<^verbatim>\<open>None\<close>, a number, a boolean (a number in Python), or a value that
  cannot be divided by \<^verbatim>\<open>100.0\<close>.
\<close>

definition project_price_over_months :: "real \<Rightarrow> json \<Rightarrow> int \<Rightarrow> py_error + real list option" where
  "project_price_over_months start_price annual_inflation_pct months =
     (case annual_inflation_pct of
        JNull \<Rightarrow> Inr None
      | JNum p \<Rightarrow> project_number start_price p months
      | JBool b \<Rightarrow> project_number start_price (if b then 1 else 0) months
      | JStr s \<Rightarrow> Inl TypeError
      | JArr xs \<Rightarrow> Inl TypeError
      | JObj d \<Rightarrow> Inl TypeError)"

section \<open>\<^verbatim>\<open>forecast_price\<close>\<close>

text \<open>
  \<^verbatim>\<open>int(x)\<close>. On a string: spaces around, an optional sign, then decimal digits that
  single underscores may separate. The spaces that \<^verbatim>\<open>int\<close> skips are the C ones among
  the ASCII characters. More digits than the interpreter's limit are refused.
\<close>

definition int_space :: "builtins \<Rightarrow> nat \<Rightarrow> bool" where
  "int_space B c = (if c < 128 then (9 \<le> c \<and> c \<le> 13) \<or> c = 32 else nonascii_space B c)"

fun underscores_ok :: "builtins \<Rightarrow> ustr \<Rightarrow> bool" where
  "underscores_ok B [] = False"
| "underscores_ok B [c] = is_digit B c"
| "underscores_ok B (c # d # r) =
     (is_digit B c \<and> (if d = 95 then underscores_ok B r else underscores_ok B (d # r)))"

definition int_of_text :: "builtins \<Rightarrow> ustr \<Rightarrow> py_error + int" where
  "int_of_text B s =
     (let t = rev (dropWhile (int_space B) (rev (dropWhile (int_space B) s)));
          (sgn, r) = (case t of [] \<Rightarrow> (1, [])
                      | c # u \<Rightarrow> if c = 43 then (1, u) else if c = 45 then (- 1, u) else (1, t))
      in if underscores_ok B r \<and> \<not> digits_exceed B (length (filter (\<lambda>c. c \<noteq> 95) r))
         then Inr (sgn * int (digits_value B (filter (\<lambda>c. c \<noteq> 95) r)))
         else Inl ValueError)"

fun py_int :: "builtins \<Rightarrow> pyval \<Rightarrow> py_error + int" where
  "py_int B PNone = Inl TypeError"
| "py_int B (PStr s) = int_of_text B s"
| "py_int B (PInt i) = Inr i"
| "py_int B (PFloat x) = Inr (if 0 \<le> x then \<lfloor>x\<rfloor> else \<lceil>x\<rceil>)"

text \<open>Lines 195 to 198: \<^verbatim>\<open>int(months)\<close>, and 0 when it raises.\<close>

definition coerce_months :: "builtins \<Rightarrow> pyval \<Rightarrow> int" where
  "coerce_months B months = (case py_int B months of Inl e \<Rightarrow> 0 | Inr n \<Rightarrow> n)"

text \<open>
  \<^verbatim>\<open>forecast_price\<close>; \<open>None\<close> is \<^verbatim>\<open>(None, None, None)\<close>. \<^verbatim>\<open>prices[-1]\<close> raises
  \<^verbatim>\<open>IndexError\<close> on the empty list.
\<close>

definition forecast_price ::
  "builtins \<Rightarrow> pyval \<Rightarrow> json \<Rightarrow> pyval \<Rightarrow> ustr \<Rightarrow> py_error + (real \<times> real list \<times> ustr) option" where
  "forecast_price B current_price inflation_rate months default_currency =
     (case parse_price B current_price default_currency of
        Inl e \<Rightarrow> Inl e
      | Inr None \<Rightarrow> Inr None
      | Inr (Some (number, symbol, code)) \<Rightarrow>
          (case project_price_over_months number inflation_rate (coerce_months B months) of
             Inl e \<Rightarrow> Inl e
           | Inr None \<Rightarrow> Inr None
           | Inr (Some prices) \<Rightarrow>
               if prices = [] then Inl IndexError
               else Inr (Some (last prices, prices,
                               str_or symbol (dict_get CURRENCY_SYMBOLS code [])))))"

section \<open>The inflation resolver\<close>

text \<open>
  The module-level dictionary \<^verbatim>\<open>_inflation_cache\<close> is the field \<open>cache\<close> of the state.
  The field \<open>calls\<close> is not in the source: it records, in order, the country code of each
  request that was sent. The service is a function from the number of requests sent so far
  and the code in the URL to what \<^verbatim>\<open>requests.get\<close>, \<^verbatim>\<open>raise_for_status\<close> and
  \<^verbatim>\<open>resp.json\<close> produce together: one of the two kinds of exception that the source
  handles, or the decoded document.
\<close>

record resolver_state =
  cache :: "ustr \<rightharpoonup> json \<times> json"
  calls :: "ustr list"

datatype fetch_outcome = RequestException | OtherException | Body json

type_synonym world = "nat \<Rightarrow> ustr \<Rightarrow> fetch_outcome"

definition empty_state :: resolver_state where
  "empty_state = \<lparr>cache = Map.empty, calls = []\<rparr>"

text \<open>The loop of lines 85 to 88 over a list of entries.\<close>

fun first_value :: "json list \<Rightarrow> py_error + (json \<times> json) option" where
  "first_value [] = Inr None"
| "first_value (entry # rest) =
     (case entry of
        JObj d \<Rightarrow>
          (if dict_get d (ascii ''value'') JNull = JNull then first_value rest
           else (case map_of d (ascii ''date'') of
                   None \<Rightarrow> Inl KeyError
                 | Some y \<Rightarrow> Inr (Some (dict_get d (ascii ''value'') JNull, y))))
      | JNull \<Rightarrow> Inl AttributeError
      | JBool b \<Rightarrow> Inl AttributeError
      | JNum x \<Rightarrow> Inl AttributeError
      | JStr s \<Rightarrow> Inl AttributeError
      | JArr xs \<Rightarrow> Inl AttributeError)"

text \<open>
  The same loop over \<^verbatim>\<open>data[1]\<close>, whatever it is: a dictionary or a string is iterated
  too (its elements have no \<^verbatim>\<open>get\<close>), the other values are not iterable.
\<close>

definition scan_series :: "json \<Rightarrow> py_error + (json \<times> json) option" where
  "scan_series d1 =
     (case d1 of
        JArr xs \<Rightarrow> first_value xs
      | JObj d \<Rightarrow> if d = [] then Inr None else Inl AttributeError
      | JStr s \<Rightarrow> if s = [] then Inr None else Inl AttributeError
      | JNull \<Rightarrow> Inl TypeError
      | JBool b \<Rightarrow> Inl TypeError
      | JNum x \<Rightarrow> Inl TypeError)"

text \<open>Lines 74 to 104: the value that is cached and returned after a request.\<close>

definition lookup_result :: "fetch_outcome \<Rightarrow> json \<times> json" where
  "lookup_result out =
     (case out of
        RequestException \<Rightarrow> (JNull, JNull)
      | OtherException \<Rightarrow> (JNull, JNull)
      | Body data \<Rightarrow>
          (case data of
             JArr (d0 # d1 # ds) \<Rightarrow>
               (case scan_series d1 of
                  Inl e \<Rightarrow> (JNull, JNull)
                | Inr None \<Rightarrow> (JNull, JNull)
                | Inr (Some latest) \<Rightarrow> latest)
           | _ \<Rightarrow> (JNull, JNull)))"

definition get_inflation_from_worldbank ::
  "builtins \<Rightarrow> world \<Rightarrow> resolver_state \<Rightarrow> ustr \<Rightarrow> (json \<times> json) \<times> resolver_state" where
  "get_inflation_from_worldbank B W st country_code =
     (if country_code = [] then ((JNull, JNull), st)
      else let code = py_lower B (py_strip B country_code)
           in case cache st code of
                Some r \<Rightarrow> (r, st)
              | None \<Rightarrow>
                  let result = lookup_result (W (length (calls st)) code)
                  in (result, \<lparr>cache = (cache st)(code \<mapsto> result), calls = calls st @ [code]\<rparr>))"

section \<open>The forecasting loop of \<^verbatim>\<open>main\<close>\<close>

text \<open>A product record is a dictionary from field names to values.\<close>

type_synonym item = "(ustr \<times> pyval) list"

record forecast_row =
  row_product :: pyval
  row_current_price :: pyval
  row_forecast_months :: pyval
  row_country :: ustr
  row_currency :: ustr
  row_inflation :: json
  row_year :: json
  row_forecasted_price :: ustr
  row_price_series :: "real list option"

fun py_truthy :: "pyval \<Rightarrow> bool" where
  "py_truthy PNone = False"
| "py_truthy (PStr s) = (s \<noteq> [])"
| "py_truthy (PInt i) = (i \<noteq> 0)"
| "py_truthy (PFloat x) = (x \<noteq> 0)"

text \<open>\<^verbatim>\<open>(v or "")\<close>, then a method of \<^verbatim>\<open>str\<close> on it, which a number does not have.\<close>

definition or_empty :: "pyval \<Rightarrow> pyval" where
  "or_empty v = (if py_truthy v then v else PStr [])"

definition str_method :: "(ustr \<Rightarrow> ustr) \<Rightarrow> pyval \<Rightarrow> py_error + ustr" where
  "str_method f v = (case v of PStr s \<Rightarrow> Inr (f s) | _ \<Rightarrow> Inl AttributeError)"

text \<open>Lines 247 to 254, once the rate is known.\<close>

definition price_columns ::
  "builtins \<Rightarrow> item \<Rightarrow> json \<Rightarrow> ustr \<Rightarrow> py_error + (ustr \<times> real list option)" where
  "price_columns B it inflation currency =
     (case py_int B (dict_get it (ascii ''Forecast Months'') (PInt 0)) of
        Inl e \<Rightarrow> Inl e
      | Inr months \<Rightarrow>
          (case forecast_price B (dict_get it (ascii ''Current Price'') (PStr (ascii ''0'')))
                  inflation (PInt months) currency of
             Inl e \<Rightarrow> Inl e
           | Inr None \<Rightarrow> Inr (ascii ''Invalid price format'', None)
           | Inr (Some (final_price, price_series, symbol)) \<Rightarrow>
               Inr ((if symbol \<noteq> [] then symbol @ float_repr B final_price
                     else float_repr B final_price @ [32] @ currency),
                    Some price_series)))"

text \<open>One turn of the loop of lines 228 to 266: the row appended, and the new state.\<close>

definition forecast_item ::
  "builtins \<Rightarrow> world \<Rightarrow> resolver_state \<Rightarrow> item \<Rightarrow> py_error + (forecast_row \<times> resolver_state)" where
  "forecast_item B W st it =
     (case str_method (py_strip B) (or_empty (dict_get it (ascii ''Country'') (PStr []))) of
        Inl e \<Rightarrow> Inl e
      | Inr country_code \<Rightarrow>
          (case str_method (py_upper B) (or_empty (dict_get it (ascii ''Currency'') (PStr []))) of
             Inl e \<Rightarrow> Inl e
           | Inr cur \<Rightarrow>
               let currency = str_or cur (ascii ''USD'');
                   ((inflation, year), st') = get_inflation_from_worldbank B W st country_code;
                   row = \<lparr>row_product = dict_get it (ascii ''Product'') (PStr []),
                          row_current_price = dict_get it (ascii ''Current Price'') (PStr (ascii ''N/A'')),
                          row_forecast_months = dict_get it (ascii ''Forecast Months'') (PStr (ascii ''0'')),
                          row_country = country_code,
                          row_currency = currency,
                          row_inflation = JNull,
                          row_year = JNull,
                          row_forecasted_price = ascii ''Inflation data not found'',
                          row_price_series = None\<rparr>
               in if inflation = JNull then Inr (row, st')
                  else (case price_columns B it inflation currency of
                          Inl e \<Rightarrow> Inl e
                        | Inr (forecasted_price, price_series) \<Rightarrow>
                            Inr (row\<lparr>row_inflation := inflation, row_year := year,
                                      row_forecasted_price := forecasted_price,
                                      row_price_series := price_series\<rparr>, st'))))"

text \<open>
  The loop: \<open>forecasts\<close> is the list built so far. An exception in one turn leaves the
  loop, and \<^verbatim>\<open>main\<close> with it, since the loop is inside no \<^verbatim>\<open>try\<close>.
\<close>

fun forecast_loop ::
  "builtins \<Rightarrow> world \<Rightarrow> resolver_state \<Rightarrow> forecast_row list \<Rightarrow> item list
     \<Rightarrow> py_error + (forecast_row list \<times> resolver_state)" where
  "forecast_loop B W st forecasts [] = Inr (forecasts, st)"
| "forecast_loop B W st forecasts (it # items) =
     (case forecast_item B W st it of
        Inl e \<Rightarrow> Inl e
      | Inr (row, st') \<Rightarrow> forecast_loop B W st' (forecasts @ [row]) items)"

section \<open>Inputs for running the model\<close>

text \<open>
  A reply of the service whose latest year has no value and whose year before has 3, a service
  that always sends it, a service that always fails, and a product record with five text fields.
\<close>

definition worldbank_reply :: json where
  "worldbank_reply =
     JArr [JObj [(ascii ''page'', JNum 1)],
           JArr [JObj [(ascii ''value'', JNull), (ascii ''date'', JStr (ascii ''2024''))],
                 JObj [(ascii ''value'', JNum 3), (ascii ''date'', JStr (ascii ''2023''))]]]"

definition steady_world :: world where
  "steady_world n code = Body worldbank_reply"

definition failing_world :: world where
  "failing_world n code = RequestException"

definition product :: "string \<Rightarrow> string \<Rightarrow> string \<Rightarrow> string \<Rightarrow> string \<Rightarrow> item" where
  "product name price months country currency =
     [(ascii ''Product'', PStr (ascii name)), (ascii ''Current Price'', PStr (ascii price)),
      (ascii ''Forecast Months'', PStr (ascii months)), (ascii ''Country'', PStr (ascii country)),
      (ascii ''Currency'', PStr (ascii currency))]"

section \<open>The pattern matcher\<close>

subsection \<open>What a match consists of\<close>

lemma or_else_Some: "or_else a b = Some r \<Longrightarrow> a = Some r \<or> b = Some r"
  by (auto simp: or_else_def split: option.splits)

lemma ws_star_result:
  "ws_star B k s = Some r \<Longrightarrow> \<exists>u v. s = u @ v \<and> list_all (is_space B) u \<and> k v = Some r"
proof (induction s)
  case Nil
  then show ?case by simp
next
  case (Cons c cs)
  show ?case
  proof (cases "is_space B c \<and> ws_star B k cs = Some r")
    case True
    with Cons.IH obtain u v where "cs = u @ v" "list_all (is_space B) u" "k v = Some r" by blast
    with True have "c # cs = (c # u) @ v \<and> list_all (is_space B) (c # u) \<and> k v = Some r" by simp
    then show ?thesis by blast
  next
    case False
    with Cons.prems have "k (c # cs) = Some r"
      by (auto dest: or_else_Some split: if_splits)
    then have "c # cs = [] @ (c # cs) \<and> list_all (is_space B) [] \<and> k (c # cs) = Some r" by simp
    then show ?thesis by blast
  qed
qed

lemma num_star_result:
  "num_star B k acc s = Some r \<Longrightarrow>
     \<exists>u v. s = u @ v \<and> list_all (num_char B) u \<and> k (acc @ u) v = Some r"
proof (induction s arbitrary: acc)
  case Nil
  then show ?case by simp
next
  case (Cons c cs)
  show ?case
  proof (cases "num_char B c \<and> num_star B k (acc @ [c]) cs = Some r")
    case True
    with Cons.IH obtain u v where "cs = u @ v" "list_all (num_char B) u" "k ((acc @ [c]) @ u) v = Some r"
      by blast
    with True have "c # cs = (c # u) @ v \<and> list_all (num_char B) (c # u) \<and> k (acc @ (c # u)) v = Some r"
      by simp
    then show ?thesis by blast
  next
    case False
    with Cons.prems have "k acc (c # cs) = Some r"
      by (auto dest: or_else_Some split: if_splits)
    then have "c # cs = [] @ (c # cs) \<and> list_all (num_char B) [] \<and> k (acc @ []) (c # cs) = Some r"
      by simp
    then show ?thesis by blast
  qed
qed

lemma num_plus_result:
  "num_plus B k s = Some r \<Longrightarrow>
     \<exists>u v. s = u @ v \<and> u \<noteq> [] \<and> list_all (num_char B) u \<and> k u v = Some r"
proof (cases s)
  case Nil
  assume "num_plus B k s = Some r"
  with Nil show ?thesis by simp
next
  case (Cons c cs)
  assume a: "num_plus B k s = Some r"
  have nc: "num_char B c"
    using a Cons by (cases "num_char B c") simp_all
  with a Cons have "num_star B k [c] cs = Some r" by simp
  from num_star_result[OF this]
  obtain u v where "cs = u @ v" "list_all (num_char B) u" "k ([c] @ u) v = Some r"
    by blast
  with Cons nc have "s = (c # u) @ v \<and> c # u \<noteq> [] \<and> list_all (num_char B) (c # u) \<and> k (c # u) v = Some r"
    by simp
  then show ?thesis by blast
qed

lemma code_opt_cases:
  "code_opt k s = Some r \<Longrightarrow>
     (\<exists>a b c v. s = a # b # c # v \<and> ascii_letter a \<and> ascii_letter b \<and> ascii_letter c
        \<and> k (Some [a, b, c]) v = Some r) \<or> k None s = Some r"
proof (induction k s rule: code_opt.induct)
  case (1 k a b c r')
  then show ?case
    by (cases "ascii_letter a \<and> ascii_letter b \<and> ascii_letter c") (auto dest: or_else_Some)
qed simp_all

lemma code_opt_result:
  assumes "code_opt k s = Some r"
  shows "\<exists>g v. s = group_text g @ v \<and> code_group g \<and> k g v = Some r"
proof -
  from code_opt_cases[OF assms] show ?thesis
  proof
    assume "\<exists>a b c v. s = a # b # c # v \<and> ascii_letter a \<and> ascii_letter b \<and> ascii_letter c
        \<and> k (Some [a, b, c]) v = Some r"
    then obtain a b c v where h: "s = a # b # c # v" "ascii_letter a" "ascii_letter b" "ascii_letter c"
        "k (Some [a, b, c]) v = Some r" by blast
    then have "s = group_text (Some [a, b, c]) @ v \<and> code_group (Some [a, b, c])
        \<and> k (Some [a, b, c]) v = Some r"
      by (simp add: group_text_def code_group_def three_letters_def)
    then show ?thesis by blast
  next
    assume "k None s = Some r"
    then have "s = group_text None @ s \<and> code_group None \<and> k None s = Some r"
      by (simp add: group_text_def code_group_def)
    then show ?thesis by blast
  qed
qed

lemma sign_opt_result:
  "sign_opt k s = Some r \<Longrightarrow>
     \<exists>g v. s = g @ v \<and> (g = [] \<or> (\<exists>c. g = [c] \<and> currency_sign c)) \<and> k g v = Some r"
proof (cases s)
  case Nil
  assume "sign_opt k s = Some r"
  with Nil have "s = [] @ [] \<and> k [] [] = Some r" by simp
  then show ?thesis by blast
next
  case (Cons c cs)
  assume a: "sign_opt k s = Some r"
  show ?thesis
  proof (cases "currency_sign c \<and> k [c] cs = Some r")
    case True
    with Cons have "s = [c] @ cs \<and> ([c] = [c] \<and> currency_sign c) \<and> k [c] cs = Some r" by simp
    then show ?thesis by blast
  next
    case False
    with a Cons have "k [] (c # cs) = Some r"
      by (cases "currency_sign c") (auto dest: or_else_Some)
    with Cons have "s = [] @ s \<and> k [] s = Some r" by simp
    then show ?thesis by blast
  qed
qed

lemma match_here_shape:
  assumes "match_here B s = Some g"
  shows "match_shape B g s"
proof -
  from code_opt_result[OF assms[unfolded match_here_def]]
  obtain g1 r1 where s1: "s = group_text g1 @ r1" and c1: "code_group g1"
    and k1: "ws_star B (\<lambda>r2. sign_opt (\<lambda>gsym r3. num_plus B (\<lambda>gnum r4. ws_star B (\<lambda>r5.
               code_opt (\<lambda>gcode2 r6. Some (g1, gsym, gnum, gcode2)) r5) r4) r3) r2) r1 = Some g"
    by blast
  from ws_star_result[OF k1]
  obtain w1 r2 where s2: "r1 = w1 @ r2" and c2: "list_all (is_space B) w1"
    and k2: "sign_opt (\<lambda>gsym r3. num_plus B (\<lambda>gnum r4. ws_star B (\<lambda>r5.
               code_opt (\<lambda>gcode2 r6. Some (g1, gsym, gnum, gcode2)) r5) r4) r3) r2 = Some g"
    by blast
  from sign_opt_result[OF k2]
  obtain gsym r3 where s3: "r2 = gsym @ r3" and c3: "gsym = [] \<or> (\<exists>c. gsym = [c] \<and> currency_sign c)"
    and k3: "num_plus B (\<lambda>gnum r4. ws_star B (\<lambda>r5.
               code_opt (\<lambda>gcode2 r6. Some (g1, gsym, gnum, gcode2)) r5) r4) r3 = Some g"
    by blast
  from num_plus_result[OF k3]
  obtain gnum r4 where s4: "r3 = gnum @ r4" and c4: "gnum \<noteq> []" "list_all (num_char B) gnum"
    and k4: "ws_star B (\<lambda>r5. code_opt (\<lambda>gcode2 r6. Some (g1, gsym, gnum, gcode2)) r5) r4 = Some g"
    by blast
  from ws_star_result[OF k4]
  obtain w2 r5 where s5: "r4 = w2 @ r5" and c5: "list_all (is_space B) w2"
    and k5: "code_opt (\<lambda>gcode2 r6. Some (g1, gsym, gnum, gcode2)) r5 = Some g"
    by blast
  from code_opt_result[OF k5]
  obtain g2 r6 where s6: "r5 = group_text g2 @ r6" and c6: "code_group g2"
    and k6: "g = (g1, gsym, gnum, g2)"
    by auto
  have "s = group_text g1 @ w1 @ gsym @ gnum @ w2 @ group_text g2 @ r6"
    using s1 s2 s3 s4 s5 s6 by simp
  with c2 c5 have "\<exists>w1 w2 rest. list_all (is_space B) w1 \<and> list_all (is_space B) w2
              \<and> s = group_text g1 @ w1 @ gsym @ gnum @ w2 @ group_text g2 @ rest"
    by blast
  with c1 c3 c4 c6 k6 show ?thesis
    by (simp add: match_shape_def)
qed

lemma price_search_shape:
  "price_search B s = Some g \<Longrightarrow> \<exists>pre t. s = pre @ t \<and> match_shape B g t"
proof (induction s)
  case Nil
  then have "match_here B [] = Some g" by simp
  then have m: "match_shape B g []" by (rule match_here_shape)
  show ?case
    by (rule exI[of _ "[]"], rule exI[of _ "[]"]) (simp add: m)
next
  case (Cons c cs)
  from Cons.prems have "or_else (match_here B (c # cs)) (price_search B cs) = Some g"
    by simp
  then have "match_here B (c # cs) = Some g \<or> price_search B cs = Some g"
    by (rule or_else_Some)
  then show ?case
  proof
    assume "match_here B (c # cs) = Some g"
    then have m: "match_shape B g (c # cs)" by (rule match_here_shape)
    show ?thesis
      by (rule exI[of _ "[]"], rule exI[of _ "c # cs"]) (simp add: m)
  next
    assume "price_search B cs = Some g"
    then have "\<exists>pre t. cs = pre @ t \<and> match_shape B g t" by (rule Cons.IH)
    then obtain pre t where h: "cs = pre @ t" "match_shape B g t" by (elim exE conjE)
    show ?thesis
      by (rule exI[of _ "c # pre"], rule exI[of _ t]) (simp add: h)
  qed
qed

lemma num_char_32: "\<not> num_char B 32"
  by (simp add: num_char_def is_digit_def decimal_value_def)

lemma replace_char_absent: "old \<notin> set s \<Longrightarrow> replace_char old new s = s"
  by (induction s) (simp_all add: replace_char_def)

lemma replace_char_delete: "replace_char old [] s = filter (\<lambda>c. c \<noteq> old) s"
  by (induction s) (simp_all add: replace_char_def)

lemma token_no_space:
  assumes "list_all (num_char B) gnum"
  shows "replace_char 32 [] (replace_char 44 [] gnum) = replace_char 44 [] gnum"
proof -
  have "32 \<notin> set gnum"
    using assms num_char_32[of B] by (auto simp: list_all_iff)
  then have "32 \<notin> set (replace_char 44 [] gnum)"
    by (simp add: replace_char_delete)
  then show ?thesis by (rule replace_char_absent)
qed

lemma group_or_code:
  "code_group gcode1 \<Longrightarrow> code_group gcode2 \<Longrightarrow>
   group_or gcode1 (group_or gcode2 d) = code_precedence gcode1 gcode2 d"
  by (cases gcode1; cases gcode2)
     (auto simp: group_or_def str_or_def code_precedence_def code_group_def three_letters_def)

lemma matched_parse_shape:
  assumes "match_shape B (gcode1, gsym, gnum, gcode2) t"
  shows "matched_parse B (gcode1, gsym, gnum, gcode2) d =
     (case py_float B (replace_char 44 [] gnum) of
        Inl e \<Rightarrow> None
      | Inr x \<Rightarrow>
          Some (x,
                dict_get CURRENCY_SYMBOLS (py_upper B (code_precedence gcode1 gcode2 d))
                  (str_or gsym (dict_get CURRENCY_SYMBOLS d [])),
                py_upper B (code_precedence gcode1 gcode2 d)))"
proof -
  from assms have c: "code_group gcode1" "code_group gcode2" and n: "list_all (num_char B) gnum"
    by (simp_all add: match_shape_def)
  show ?thesis
    by (simp add: matched_parse_def Let_def group_or_code[OF c] token_no_space[OF n]
             split: sum.splits)
qed

subsection \<open>When the pattern must match\<close>

lemma or_else_None: "or_else a b = None \<longleftrightarrow> a = None \<and> b = None"
  by (cases a) (simp_all add: or_else_def)

lemma ws_star_skip: "k s \<noteq> None \<Longrightarrow> ws_star B k s \<noteq> None"
  by (cases s) (simp_all add: or_else_None del: not_None_eq)

lemma ws_star_total: "(\<And>v. k v \<noteq> None) \<Longrightarrow> ws_star B k s \<noteq> None"
  by (rule ws_star_skip) simp

lemma code_opt_skip: "k None s \<noteq> None \<Longrightarrow> code_opt k s \<noteq> None"
  by (cases "(k, s)" rule: code_opt.cases) (simp_all add: or_else_None del: not_None_eq)

lemma sign_opt_skip: "k [] s \<noteq> None \<Longrightarrow> sign_opt k s \<noteq> None"
  by (cases s) (simp_all add: or_else_None del: not_None_eq)

lemma num_star_total: "(\<And>a v. k a v \<noteq> None) \<Longrightarrow> num_star B k acc s \<noteq> None"
proof (induction s arbitrary: acc)
  case Nil
  then show ?case by simp
next
  case (Cons c cs)
  have "k acc (c # cs) \<noteq> None" by (rule Cons.prems)
  then show ?case by (simp add: or_else_None del: not_None_eq)
qed

lemma match_here_num_char:
  assumes "num_char B c"
  shows "match_here B (c # cs) \<noteq> None"
proof -
  have tail: "ws_star B (\<lambda>r5. code_opt (\<lambda>gcode2 r6. Some (g1, gsym, gnum, gcode2)) r5) r4 \<noteq> None"
    for g1 :: "ustr option" and gsym gnum r4 :: ustr
    by (rule ws_star_total, rule code_opt_skip) simp
  have "num_plus B (\<lambda>gnum r4. ws_star B (\<lambda>r5.
          code_opt (\<lambda>gcode2 r6. Some (g1, gsym, gnum, gcode2)) r5) r4) (c # cs) \<noteq> None"
    for g1 :: "ustr option" and gsym :: ustr
    using assms by (simp add: num_star_total tail)
  then show ?thesis
    unfolding match_here_def
    by (intro code_opt_skip ws_star_skip sign_opt_skip)
qed

lemma price_search_None:
  "price_search B s = None \<Longrightarrow> \<forall>c \<in> set s. \<not> num_char B c"
proof (induction s)
  case Nil
  then show ?case by simp
next
  case (Cons c cs)
  from Cons.prems have "or_else (match_here B (c # cs)) (price_search B cs) = None" by simp
  then have n: "match_here B (c # cs) = None" "price_search B cs = None"
    by (simp_all add: or_else_None del: not_None_eq)
  from n(1) have "\<not> num_char B c" using match_here_num_char[of B c cs] by blast
  with Cons.IH[OF n(2)] show ?case by simp
qed

lemma clean_char_num_char:
  "(48 \<le> c \<and> c \<le> 57) \<or> c = 46 \<or> c = 45 \<Longrightarrow> num_char B c"
  by (auto simp: num_char_def is_digit_def decimal_value_def)

lemma fallback_after_no_match:
  assumes "price_search B s = None"
  shows "fallback_parse B s d = None"
proof -
  have "\<forall>c \<in> set s. \<not> ((48 \<le> c \<and> c \<le> 57) \<or> c = 46 \<or> c = 45)"
    using price_search_None[OF assms] clean_char_num_char[of _ B] by blast
  then have "fallback_clean s = []"
    unfolding fallback_clean_def by (simp only: filter_False)
  then show ?thesis by (simp add: fallback_parse_def py_float_def)
qed

subsection \<open>The strings handed to \<^verbatim>\<open>float\<close>\<close>

lemma clean_char_alphabet:
  "(48 \<le> c \<and> c \<le> 57) \<or> c = 46 \<or> c = 45 \<Longrightarrow> c = 43 \<or> c = 45 \<or> c = 46 \<or> is_digit B c"
  by (auto simp: is_digit_def decimal_value_def)

lemma fallback_alphabet:
  "list_all (\<lambda>c. c = 43 \<or> c = 45 \<or> c = 46 \<or> is_digit B c) (fallback_clean s)"
  unfolding list_all_iff fallback_clean_def
  using clean_char_alphabet[of _ B] by simp

lemma num_char_alphabet:
  "num_char B c \<Longrightarrow> c \<noteq> 44 \<Longrightarrow> c = 43 \<or> c = 45 \<or> c = 46 \<or> is_digit B c"
  by (auto simp: num_char_def)

lemma token_alphabet:
  assumes "price_search B s = Some (gcode1, gsym, gnum, gcode2)"
  shows "list_all (\<lambda>c. c = 43 \<or> c = 45 \<or> c = 46 \<or> is_digit B c) (replace_char 44 [] gnum)"
proof -
  from price_search_shape[OF assms] have "list_all (num_char B) gnum"
    by (auto simp: match_shape_def)
  then show ?thesis
    unfolding list_all_iff replace_char_delete
    using num_char_alphabet[of B] by simp
qed

subsection \<open>The text of an integer\<close>

lemma nat_digits_digits: "nat_digits n \<noteq> [] \<and> list_all ascii_digit (nat_digits n)"
proof (induction n rule: nat_digits.induct)
  case (1 n)
  show ?case
  proof (cases "n < 10")
    case True
    then show ?thesis by (simp add: nat_digits.simps[of n] ascii_digit_def)
  next
    case False
    have "n mod 10 < 10" by simp
    then have "ascii_digit (48 + n mod 10)" unfolding ascii_digit_def by linarith
    with False 1 show ?thesis by (simp add: nat_digits.simps[of n])
  qed
qed

lemma ascii_digit_value: "ascii_digit c \<Longrightarrow> decimal_value B c = Some (c - 48)"
  by (simp add: ascii_digit_def decimal_value_def)

lemma ascii_digit_is_digit: "ascii_digit c \<Longrightarrow> is_digit B c"
  by (simp add: is_digit_def ascii_digit_value)

lemma digits_value_snoc:
  "list_all ascii_digit ds \<Longrightarrow> ascii_digit c \<Longrightarrow>
     digits_value B (ds @ [c]) = digits_value B ds * 10 + (c - 48)"
proof (induction ds)
  case Nil
  then show ?case by (simp add: ascii_digit_value)
next
  case (Cons d ds)
  then have "digits_value B (ds @ [c]) = digits_value B ds * 10 + (c - 48)" by simp
  with Cons.prems show ?case by (simp add: ascii_digit_value)
qed

lemma digits_value_nat_digits: "digits_value B (nat_digits n) = n"
proof (induction n rule: nat_digits.induct)
  case (1 n)
  show ?case
  proof (cases "n < 10")
    case True
    then have "ascii_digit (48 + n)" by (simp add: ascii_digit_def)
    with True show ?thesis by (simp add: nat_digits.simps[of n] ascii_digit_value)
  next
    case False
    have "n mod 10 < 10" by simp
    then have d: "ascii_digit (48 + n mod 10)" unfolding ascii_digit_def by linarith
    have "digits_value B (nat_digits (n div 10) @ [48 + n mod 10])
            = digits_value B (nat_digits (n div 10)) * 10 + (48 + n mod 10 - 48)"
      using nat_digits_digits[of "n div 10"] d by (intro digits_value_snoc) simp_all
    with False 1 show ?thesis by (simp add: nat_digits.simps[of n])
  qed
qed


lemma ascii_digit_plain:
  assumes "ascii_digit c \<or> c = 45"
  shows "num_char B c" "\<not> is_space B c" "\<not> currency_sign c" "\<not> ascii_letter c"
    "c \<noteq> 160" "c \<noteq> 44"
  using assms
  by (auto simp: ascii_digit_def num_char_def is_digit_def decimal_value_def is_space_def
        currency_sign_def ascii_letter_def)

lemma code_opt_no_letter: "\<not> ascii_letter c \<Longrightarrow> code_opt k (c # cs) = k None (c # cs)"
proof (cases cs)
  case Nil
  then show ?thesis by simp
next
  case (Cons b r)
  assume "\<not> ascii_letter c"
  with Cons show ?thesis by (cases r) simp_all
qed

lemma num_star_greedy:
  "list_all (num_char B) s \<Longrightarrow> k (acc @ s) [] = Some r \<Longrightarrow> num_star B k acc s = Some r"
proof (induction s arbitrary: acc)
  case Nil
  then show ?case by simp
next
  case (Cons c cs)
  from Cons.prems have "num_star B k (acc @ [c]) cs = Some r"
    by (intro Cons.IH) simp_all
  with Cons.prems show ?case by (simp add: or_else_def)
qed

lemma plain_match:
  assumes "list_all (num_char B) (c # cs)"
    and "\<not> is_space B c" and "\<not> currency_sign c" and "\<not> ascii_letter c"
  shows "match_here B (c # cs) = Some (None, [], c # cs, None)"
proof -
  have "num_star B (\<lambda>gnum r4. ws_star B (\<lambda>r5.
          code_opt (\<lambda>gcode2 r6. Some (None, [], gnum, gcode2)) r5) r4) [c] cs
        = Some (None, [], c # cs, None)"
    using assms(1) by (intro num_star_greedy) simp_all
  then show ?thesis
    using assms by (simp add: match_here_def code_opt_no_letter)
qed

lemma plain_search:
  assumes "list_all (num_char B) (c # cs)"
    and "\<not> is_space B c" and "\<not> currency_sign c" and "\<not> ascii_letter c"
  shows "price_search B (c # cs) = Some (None, [], c # cs, None)"
  by (simp add: plain_match[OF assms] or_else_def)

lemma py_strip_plain:
  assumes "s \<noteq> []" and "\<not> is_space B (hd s)" and "\<not> is_space B (last s)"
  shows "py_strip B s = s"
proof -
  have a: "dropWhile (is_space B) s = s"
    using assms(1,2) by (cases s) simp_all
  have "rev s \<noteq> []" "\<not> is_space B (hd (rev s))"
    using assms(1,3) by (simp_all add: hd_rev)
  then have "dropWhile (is_space B) (rev s) = rev s"
    by (cases "rev s") simp_all
  with a show ?thesis by (simp add: py_strip_def)
qed

lemma py_float_digits:
  assumes "ds \<noteq> []" and "list_all ascii_digit ds"
  shows "py_float B ds = Inr (real (digits_value B ds))"
    and "py_float B (45 # ds) = Inr (- real (digits_value B ds))"
proof -
  have d: "\<forall>c \<in> set ds. is_digit B c"
    using assms(2) by (auto simp: list_all_iff ascii_digit_is_digit)
  then have t: "takeWhile (is_digit B) ds = ds" "dropWhile (is_digit B) ds = []"
    by simp_all
  obtain c cs where s: "ds = c # cs" using assms(1) by (cases ds) auto
  with assms(2) have "ascii_digit c" by simp
  then have n: "c \<noteq> 43" "c \<noteq> 45" by (auto simp: ascii_digit_def)
  have "py_float B (c # cs) = Inr (real (digits_value B (c # cs)))"
    unfolding py_float_def using n t[unfolded s] by (simp add: Let_def)
  then show "py_float B ds = Inr (real (digits_value B ds))" by (simp add: s)
  show "py_float B (45 # ds) = Inr (- real (digits_value B ds))"
    unfolding py_float_def by (simp add: Let_def t assms(1))
qed

lemma int_str_cases:
  obtains ds where "ds \<noteq> []" "list_all ascii_digit ds" "digits_value B ds = nat \<bar>i\<bar>"
    "int_str i = (if i < 0 then 45 # ds else ds)"
proof -
  let ?ds = "nat_digits (nat \<bar>i\<bar>)"
  have "int_str i = (if i < 0 then 45 # ?ds else ?ds)"
    by (cases "i < 0") (simp_all add: int_str_def)
  then show ?thesis
    using nat_digits_digits[of "nat \<bar>i\<bar>"] digits_value_nat_digits[of B "nat \<bar>i\<bar>"] that
    by blast
qed

lemma int_str_chars:
  "int_str i \<noteq> [] \<and> list_all (\<lambda>c. ascii_digit c \<or> c = 45) (int_str i)
   \<and> (ascii_digit (hd (int_str i)) \<or> hd (int_str i) = 45) \<and> ascii_digit (last (int_str i))"
proof -
  obtain ds where d: "ds \<noteq> []" "list_all ascii_digit ds"
    "int_str i = (if i < 0 then 45 # ds else ds)"
    by (rule int_str_cases[where i = i and B = B])
  from d(1,2) have e: "ascii_digit (hd ds)" "ascii_digit (last ds)"
    by (simp_all add: list_all_iff)
  from d(2) have a: "list_all (\<lambda>c. ascii_digit c \<or> c = 45) ds"
    by (simp add: list_all_iff)
  show ?thesis
    unfolding d(3) using d(1) e a by simp
qed

lemma int_text: "price_text B (PInt i) = int_str i"
proof -
  have c: "int_str i \<noteq> []" "list_all (\<lambda>c. ascii_digit c \<or> c = 45) (int_str i)"
    "ascii_digit (hd (int_str i)) \<or> hd (int_str i) = 45" "ascii_digit (last (int_str i))"
    using int_str_chars[of i] by simp_all
  have s: "py_strip B (int_str i) = int_str i"
    using c(1) ascii_digit_plain(2)[OF c(3)] ascii_digit_plain(2)[of "last (int_str i)" B] c(4)
    by (intro py_strip_plain) simp_all
  have "160 \<notin> set (int_str i)"
    using c(2) ascii_digit_plain(5) by (auto simp: list_all_iff)
  then show ?thesis by (simp add: price_text_def s replace_char_absent)
qed

lemma int_search: "price_search B (int_str i) = Some (None, [], int_str i, None)"
proof -
  have c: "int_str i \<noteq> []" "list_all (\<lambda>c. ascii_digit c \<or> c = 45) (int_str i)"
    "ascii_digit (hd (int_str i)) \<or> hd (int_str i) = 45"
    using int_str_chars[of i] by simp_all
  obtain c cs where s: "int_str i = c # cs" using c(1) by (cases "int_str i") auto
  have h: "ascii_digit c \<or> c = 45" using c(3) s by simp
  have "list_all (num_char B) (c # cs)"
    using c(2) ascii_digit_plain(1)[of _ B] unfolding s by (auto simp: list_all_iff)
  then show ?thesis
    unfolding s using ascii_digit_plain(2-4)[OF h] by (intro plain_search) simp_all
qed

lemma int_float: "py_float B (replace_char 44 [] (int_str i)) = Inr (of_int i)"
proof -
  have "44 \<notin> set (int_str i)"
    using int_str_chars[of i] ascii_digit_plain(6) by (auto simp: list_all_iff)
  then have r: "replace_char 44 [] (int_str i) = int_str i" by (rule replace_char_absent)
  obtain ds where d: "ds \<noteq> []" "list_all ascii_digit ds" "digits_value B ds = nat \<bar>i\<bar>"
    "int_str i = (if i < 0 then 45 # ds else ds)"
    by (rule int_str_cases[where i = i and B = B])
  have "py_float B (int_str i) = Inr (of_int i)"
    unfolding d(4)
    by (cases "i < 0") (simp_all add: py_float_digits[OF d(1,2)] d(3))
  then show ?thesis by (simp only: r)
qed




lemma parse_price_match:
  assumes "price_str \<noteq> PNone" and "\<not> str_raises B price_str"
    and "price_search B (price_text B price_str) = Some (gcode1, gsym, gnum, gcode2)"
  shows "parse_price B price_str d =
     Inr (case py_float B (replace_char 44 [] gnum) of
            Inl e \<Rightarrow> None
          | Inr x \<Rightarrow>
              Some (x,
                    dict_get CURRENCY_SYMBOLS (py_upper B (code_precedence gcode1 gcode2 d))
                      (str_or gsym (dict_get CURRENCY_SYMBOLS d [])),
                    py_upper B (code_precedence gcode1 gcode2 d)))"
proof -
  from price_search_shape[OF assms(3)] obtain pre t
    where "match_shape B (gcode1, gsym, gnum, gcode2) t" by (elim exE conjE)
  then show ?thesis
    using assms by (simp add: parse_price_def matched_parse_shape)
qed

section \<open>Properties of the price parser\<close>

subsection \<open>Running the parser on some inputs\<close>

lemma text_5plus: "price_text ascii_builtins (PStr (ascii ''5+'')) = ascii ''5+''"
  by (simp add: price_text_def py_strip_def is_space_def ascii_def replace_char_def)

lemma search_5plus:
  "price_search ascii_builtins (ascii ''5+'') = Some (None, [], ascii ''5+'', None)"
  by (simp add: ascii_def match_here_def or_else_def num_char_def is_digit_def
        decimal_value_def currency_sign_def ascii_letter_def is_space_def)

lemma float_5plus: "py_float ascii_builtins (replace_char 44 [] (ascii ''5+'')) = Inl ValueError"
  by (simp add: ascii_def replace_char_def py_float_def is_digit_def decimal_value_def)

lemma matched_5plus:
  "matched_parse ascii_builtins (None, [], ascii ''5+'', None) (ascii ''USD'') = None"
  by (simp add: matched_parse_def ascii_def replace_char_def py_float_def is_digit_def
        decimal_value_def group_or_def str_or_def)

lemma fallback_5plus:
  "fallback_parse ascii_builtins (ascii ''5+'') (ascii ''USD'') = Some (5, [36], ascii ''USD'')"
  by (simp add: fallback_parse_def fallback_clean_def ascii_def py_float_def is_digit_def
        decimal_value_def dict_get_def CURRENCY_SYMBOLS_def)

lemma text_usd: "price_text ascii_builtins (PStr (ascii ''usd 1,234.50 EUR'')) = ascii ''usd 1,234.50 EUR''"
  by (simp add: price_text_def py_strip_def is_space_def ascii_def replace_char_def)

lemma search_usd:
  "price_search ascii_builtins (ascii ''usd 1,234.50 EUR'')
     = Some (Some (ascii ''usd''), [], ascii ''1,234.50'', Some (ascii ''EUR''))"
  by (simp add: ascii_def match_here_def or_else_def num_char_def is_digit_def
        decimal_value_def currency_sign_def ascii_letter_def is_space_def)

lemma float_usd: "py_float ascii_builtins (replace_char 44 [] (ascii ''1,234.50'')) = Inr (2469 / 2)"
  by (simp add: ascii_def replace_char_def py_float_def is_digit_def decimal_value_def)

lemma text_eur: "price_text ascii_builtins (PStr (ascii ''EUR 1.2.3'')) = ascii ''EUR 1.2.3''"
  by (simp add: price_text_def py_strip_def is_space_def ascii_def replace_char_def)

lemma search_eur:
  "price_search ascii_builtins (ascii ''EUR 1.2.3'')
     = Some (Some (ascii ''EUR''), [], ascii ''1.2.3'', None)"
  by (simp add: ascii_def match_here_def or_else_def num_char_def is_digit_def
        decimal_value_def currency_sign_def ascii_letter_def is_space_def)

lemma matched_eur:
  "matched_parse ascii_builtins (Some (ascii ''EUR''), [], ascii ''1.2.3'', None) (ascii ''USD'')
     = None"
  by (simp add: matched_parse_def ascii_def replace_char_def py_float_def is_digit_def
        decimal_value_def group_or_def str_or_def)

lemma upper_USD: "py_upper ascii_builtins (ascii ''USD'') = ascii ''USD''"
  by (simp add: py_upper_def upper_char_def ascii_def)

lemma upper_usd: "py_upper ascii_builtins (ascii ''usd'') = ascii ''USD''"
  by (simp add: py_upper_def upper_char_def ascii_def)

subsection \<open>The claims about the parser\<close>




text \<open>
  C5, as the specification has it: the parse fails exactly when the structured parse and
  the fallback both fail, the fallback being attempted also after a match whose number
  does not convert. On \<^verbatim>\<open>"5+"\<close> the pattern matches the token \<^verbatim>\<open>5+\<close>, which
  \<^verbatim>\<open>float\<close> rejects; the fallback of lines 134 to 138 would strip the text to \<^verbatim>\<open>5\<close>
  and succeed, and the parser returns the failure all the same.
\<close>

theorem fallback_skipped_after_match:
  "parse_price ascii_builtins (PStr (ascii ''5+'')) (ascii ''USD'') = Inr None
   \<and> fallback_parse ascii_builtins (price_text ascii_builtins (PStr (ascii ''5+''))) (ascii ''USD'')
       = Some (5, [36], ascii ''USD'')"
  by (simp add: parse_price_def text_5plus search_5plus matched_5plus fallback_5plus)

text \<open>
  C5, amended. For every input other than null the parse fails exactly when the pattern has
  no match in the text, or it has one and the matched numeric token, commas removed, does
  not convert. The fallback is run only when there is no match, and then it fails as well.
\<close>

theorem parse_failure_cases:
  assumes "price_str \<noteq> PNone"
  shows "(parse_price B price_str d = Inr None \<longleftrightarrow>
            (case price_search B (price_text B price_str) of
               None \<Rightarrow> True
             | Some (gcode1, gsym, gnum, gcode2) \<Rightarrow> isl (py_float B (replace_char 44 [] gnum))))
         \<and> (price_search B (price_text B price_str) = None \<longrightarrow>
              fallback_parse B (price_text B price_str) d = None)"
proof (cases "str_raises B price_str")
  case True
  then obtain i where i: "price_str = PInt i" by (cases price_str) simp_all
  from True have "parse_price B price_str d \<noteq> Inr None"
    using assms by (simp add: parse_price_def)
  then show ?thesis
    by (simp add: i int_text int_search int_float)
next
  case False
  show ?thesis
  proof (cases "price_search B (price_text B price_str)")
    case None
    then show ?thesis
      using assms False by (simp add: parse_price_def fallback_after_no_match)
  next
    case (Some g)
    obtain gcode1 gsym gnum gcode2 where g: "g = (gcode1, gsym, gnum, gcode2)"
      by (cases g)
    show ?thesis
      using assms False Some g parse_price_match[of price_str B gcode1 gsym gnum gcode2 d]
      by (cases "py_float B (replace_char 44 [] gnum)") simp_all
  qed
qed

theorem parse_failure_cases_witness:
  "PStr (ascii ''5+'') \<noteq> PNone
   \<and> parse_price ascii_builtins (PStr (ascii ''5+'')) (ascii ''USD'') = Inr None"
  using parse_failure_cases[of "PStr (ascii ''5+'')" ascii_builtins "ascii ''USD''"]
  by (simp add: text_5plus search_5plus float_5plus)

text \<open>
  C6, as the specification has it: for every price string in which the pattern has a match,
  the result carries the code of the leading or trailing group and the value of the matched
  token. In \<^verbatim>\<open>EUR 1.2.3\<close> the pattern matches with the leading code \<^verbatim>\<open>EUR\<close> and the
  token \<^verbatim>\<open>1.2.3\<close>, which \<^verbatim>\<open>float\<close> rejects: the result is the failure, with no code
  and no value.
\<close>

theorem matched_token_does_not_convert:
  "price_search ascii_builtins (price_text ascii_builtins (PStr (ascii ''EUR 1.2.3'')))
     = Some (Some (ascii ''EUR''), [], ascii ''1.2.3'', None)
   \<and> parse_price ascii_builtins (PStr (ascii ''EUR 1.2.3'')) (ascii ''USD'') = Inr None"
  by (simp add: parse_price_def text_eur search_eur matched_eur)

text \<open>
  C6, amended. For every input other than null whose text can be taken (a string, a float,
  an integer within the digit limit), in which the pattern has a match and whose matched
  numeric token, commas removed, converts to a number, the currency code of the result is
  the leading three-letter code if there is one, else the trailing one, else the default, in
  upper case, and the value is that number; when the token does not convert, the parse
  fails. The leading code stands before the number and the trailing one after it, with
  nothing but spaces and the optional currency sign in between.
\<close>

theorem parse_price_code_and_value:
  assumes "price_str \<noteq> PNone" and "\<not> str_raises B price_str"
    and "price_search B (price_text B price_str) = Some (gcode1, gsym, gnum, gcode2)"
  shows "parse_price B price_str d =
           Inr (case py_float B (replace_char 44 [] gnum) of
                  Inl e \<Rightarrow> None
                | Inr x \<Rightarrow>
                    Some (x,
                          dict_get CURRENCY_SYMBOLS (py_upper B (code_precedence gcode1 gcode2 d))
                            (str_or gsym (dict_get CURRENCY_SYMBOLS d [])),
                          py_upper B (code_precedence gcode1 gcode2 d)))
         \<and> (\<exists>pre t. price_text B price_str = pre @ t
                     \<and> match_shape B (gcode1, gsym, gnum, gcode2) t)"
  using parse_price_match[OF assms] price_search_shape[OF assms(3)] by simp

text \<open>
  The amended C6 on a text with a leading code, a trailing code and a thousands separator.
\<close>

theorem parse_price_code_and_value_witness:
  "PStr (ascii ''usd 1,234.50 EUR'') \<noteq> PNone
   \<and> \<not> str_raises ascii_builtins (PStr (ascii ''usd 1,234.50 EUR''))
   \<and> price_search ascii_builtins (price_text ascii_builtins (PStr (ascii ''usd 1,234.50 EUR'')))
       = Some (Some (ascii ''usd''), [], ascii ''1,234.50'', Some (ascii ''EUR''))
   \<and> parse_price ascii_builtins (PStr (ascii ''usd 1,234.50 EUR'')) (ascii ''GBP'')
       = Inr (Some (2469 / 2, [36], ascii ''USD''))"
  using parse_price_code_and_value[of "PStr (ascii ''usd 1,234.50 EUR'')" ascii_builtins
          "Some (ascii ''usd'')" "[]" "ascii ''1,234.50''" "Some (ascii ''EUR'')" "ascii ''GBP''"]
  by (simp add: text_usd search_usd float_usd code_precedence_def upper_usd)
     (simp add: dict_get_def CURRENCY_SYMBOLS_def ascii_def)

section \<open>Properties of the projector\<close>

lemma round_half_even_bounds: "\<lfloor>x\<rfloor> \<le> round_half_even x \<and> round_half_even x \<le> \<lfloor>x\<rfloor> + 1"
  by (simp add: round_half_even_def Let_def)

lemma round_half_even_mono:
  assumes "x \<le> y"
  shows "round_half_even x \<le> round_half_even y"
proof (cases "\<lfloor>x\<rfloor> = \<lfloor>y\<rfloor>")
  case True
  then have "x - of_int \<lfloor>x\<rfloor> \<le> y - of_int \<lfloor>y\<rfloor>" using assms by simp
  with True show ?thesis
    by (simp add: round_half_even_def Let_def)
next
  case False
  have "\<lfloor>x\<rfloor> \<le> \<lfloor>y\<rfloor>" using assms by (rule floor_mono)
  with False have "\<lfloor>x\<rfloor> + 1 \<le> \<lfloor>y\<rfloor>" by simp
  then show ?thesis
    using round_half_even_bounds[of x] round_half_even_bounds[of y] by linarith
qed

lemma py_round2_mono: "x \<le> y \<Longrightarrow> py_round2 x \<le> py_round2 y"
  unfolding py_round2_def
  by (intro divide_right_mono iffD2[OF of_int_le_iff] round_half_even_mono) simp_all

lemma py_round2_hundredth: "\<exists>k::int. py_round2 x = of_int k / 100"
  unfolding py_round2_def by blast

lemma growth_base:
  assumes "- 100 \<le> p"
  shows "1 + monthly_rate p = (1 + p / 100) powr (1 / 12)" "0 \<le> 1 + monthly_rate p"
    "0 < p \<Longrightarrow> 1 \<le> 1 + monthly_rate p" "p < 0 \<Longrightarrow> 1 + monthly_rate p \<le> 1"
    "p = 0 \<Longrightarrow> 1 + monthly_rate p = 1"
proof -
  show e: "1 + monthly_rate p = (1 + p / 100) powr (1 / 12)" by (simp add: monthly_rate_def)
  show "0 \<le> 1 + monthly_rate p" unfolding e by simp
  have b: "0 \<le> 1 + p / 100" using assms by simp
  show "1 \<le> 1 + monthly_rate p" if "0 < p"
    unfolding e using that by (intro ge_one_powr_ge_zero) simp_all
  show "1 + monthly_rate p \<le> 1" if "p < 0"
    unfolding e using that b by (intro powr_le1) simp_all
  show "1 + monthly_rate p = 1" if "p = 0"
    unfolding e using that by simp
qed



subsection \<open>The range of the doubles\<close>

lemma double_max_bounds: "2 \<le> double_max" "double_max < 2 ^ 1024"
proof -
  have a: "(2::real) \<le> 2 ^ 53 - 1" by simp
  have b: "(1::real) \<le> 2 ^ 971" by (rule one_le_power) simp
  have "2 * 1 \<le> (2 ^ 53 - 1) * (2::real) ^ 971"
    using a b by (intro mult_mono) simp_all
  then show "2 \<le> double_max" by (simp add: double_max_def)
  have "(2 ^ 53 - 1) * (2::real) ^ 971 < 2 ^ 53 * 2 ^ 971"
    by (intro mult_strict_right_mono) simp_all
  also have "\<dots> = 2 ^ (53 + 971)" by (simp only: power_add)
  finally show "double_max < 2 ^ 1024" by (simp add: double_max_def)
qed

lemma float_pow_0: "float_pow b 0 = Inr 1"
  using double_max_bounds(1) by (simp add: float_pow_def)

lemma price_entries_Inr:
  "price_entries start_price b ms = Inr prices \<longleftrightarrow>
     (\<forall>m \<in> set ms. \<bar>b ^ m\<bar> \<le> double_max)
     \<and> prices = map (\<lambda>m. py_round2 (start_price * b ^ m)) ms"
proof (induction ms arbitrary: prices)
  case Nil
  show ?case by auto
next
  case (Cons m ms)
  show ?case
  proof (cases "double_max < \<bar>b ^ m\<bar>")
    case True
    then show ?thesis by (auto simp: float_pow_def)
  next
    case False
    show ?thesis
    proof (cases "price_entries start_price b ms")
      case (Inl e)
      with Cons.IH have "\<not> (\<forall>m \<in> set ms. \<bar>b ^ m\<bar> \<le> double_max)" by auto
      with Inl False show ?thesis by (auto simp: float_pow_def)
    next
      case (Inr rest)
      with Cons.IH[of rest] have "(\<forall>m \<in> set ms. \<bar>b ^ m\<bar> \<le> double_max)"
        "rest = map (\<lambda>m. py_round2 (start_price * b ^ m)) ms" by simp_all
      with Inr False show ?thesis by (auto simp: float_pow_def)
    qed
  qed
qed

lemma price_entries_Inl: "price_entries start_price b ms = Inl e \<Longrightarrow> e = OverflowError"
proof (induction ms arbitrary: e)
  case Nil
  then show ?case by simp
next
  case (Cons m ms)
  then show ?case
    by (auto simp: float_pow_def split: if_splits sum.splits)
qed

lemma price_entries_cases:
  "price_entries start_price b ms =
     (if \<forall>m \<in> set ms. \<bar>b ^ m\<bar> \<le> double_max
      then Inr (map (\<lambda>m. py_round2 (start_price * b ^ m)) ms) else Inl OverflowError)"
proof (cases "price_entries start_price b ms")
  case (Inl e)
  then have "e = OverflowError" by (rule price_entries_Inl)
  moreover have "\<not> (\<forall>m \<in> set ms. \<bar>b ^ m\<bar> \<le> double_max)"
    using Inl price_entries_Inr[of start_price b ms] by auto
  ultimately show ?thesis using Inl by simp
next
  case (Inr prices)
  then show ?thesis using price_entries_Inr[of start_price b ms prices] by simp
qed

lemma powers_in_range:
  assumes "0 \<le> b"
  shows "(\<forall>m \<in> set [0..<Suc n]. \<bar>b ^ m\<bar> \<le> double_max) \<longleftrightarrow> b ^ n \<le> double_max"
proof
  assume "\<forall>m \<in> set [0..<Suc n]. \<bar>b ^ m\<bar> \<le> double_max"
  then have "\<bar>b ^ n\<bar> \<le> double_max" by simp
  then show "b ^ n \<le> double_max" by simp
next
  assume a: "b ^ n \<le> double_max"
  have "\<bar>b ^ m\<bar> \<le> double_max" if "m \<le> n" for m
  proof (cases "b \<le> 1")
    case True
    then have "b ^ m \<le> 1" using assms by (simp add: power_le_one)
    then show ?thesis using assms double_max_bounds(1) by simp
  next
    case False
    then have "b ^ m \<le> b ^ n" using that by (intro power_increasing) simp_all
    then show ?thesis using a assms by simp
  qed
  then show "\<forall>m \<in> set [0..<Suc n]. \<bar>b ^ m\<bar> \<le> double_max" by simp
qed

lemma project_number_cases:
  assumes "0 \<le> months"
  shows "project_number start_price p months =
     (if p < - 100 then Inl TypeError
      else if double_max < ((1 + p / 100) powr (1 / 12)) ^ nat months then Inl OverflowError
      else Inr (Some (map (\<lambda>m. py_round2 (start_price
                                  * (1 + ((1 + p / 100) powr (1 / 12) - 1)) ^ m))
                       [0..<nat months + 1])))"
proof (cases "p < - 100")
  case True
  then show ?thesis using assms by (simp add: project_number_def)
next
  case False
  let ?b = "(1 + p / 100) powr (1 / 12)"
  have b: "1 + monthly_rate p = ?b" "0 \<le> ?b" by (simp_all add: monthly_rate_def)
  have n: "nat (months + 1) = Suc (nat months)" using assms by linarith
  have e: "1 + (?b - 1) = ?b" by simp
  show ?thesis
    using False powers_in_range[OF b(2), of "nat months"]
    by (simp only: project_number_def b(1) n price_entries_cases e Suc_eq_plus1[symmetric])
       (simp add: not_le)
qed



lemma project_number_returned:
  assumes "project_number start_price p months = Inr (Some prices)"
  shows "prices = map (\<lambda>m. py_round2 (start_price * (1 + monthly_rate p) ^ m))
                    [0..<length prices]"
proof (cases "1 + p / 100 < 0")
  case True
  with assms show ?thesis by (simp add: project_number_def split: if_splits)
next
  case False
  with assms have "price_entries start_price (1 + monthly_rate p) [0..<nat (months + 1)] = Inr prices"
    by (simp add: project_number_def split: sum.splits)
  then have "prices = map (\<lambda>m. py_round2 (start_price * (1 + monthly_rate p) ^ m))
                        [0..<nat (months + 1)]"
    by (simp add: price_entries_Inr)
  then show ?thesis by (metis length_map length_upt minus_nat.diff_0)
qed

lemma project_number_returned_base:
  assumes "project_number start_price p months = Inr (Some prices)" and "prices \<noteq> []"
  shows "- 100 \<le> p"
proof (rule ccontr)
  assume "\<not> - 100 \<le> p"
  then have "1 + p / 100 < 0" by simp
  with assms show False by (simp add: project_number_def split: if_splits)
qed

lemma root_power: "0 < x \<Longrightarrow> (x powr (1 / 12)) ^ 12 = (x::real)"
proof -
  assume x: "0 < x"
  have "(x powr (1 / 12)) ^ 12 = (x powr (1 / 12)) powr (real 12)"
    using x by (subst powr_realpow) simp_all
  also have "\<dots> = x powr ((1 / 12) * real 12)" by (rule powr_powr)
  also have "\<dots> = x" using x by simp
  finally show ?thesis .
qed

lemma series_nondecreasing:
  assumes "0 \<le> start_price" "1 \<le> b"
  shows "sorted_wrt (\<le>) (map (\<lambda>m. py_round2 (start_price * b ^ m)) [0..<n])"
proof -
  have "py_round2 (start_price * b ^ i) \<le> py_round2 (start_price * b ^ j)" if "i < j" for i j :: nat
  proof (rule py_round2_mono)
    have "b ^ i \<le> b ^ j" using that assms(2) by (intro power_increasing) simp_all
    then show "start_price * b ^ i \<le> start_price * b ^ j"
      using assms(1) by (rule mult_left_mono)
  qed
  then show ?thesis
    by (simp add: sorted_wrt_iff_nth_less)
qed

lemma series_nonincreasing:
  assumes "0 \<le> start_price" "0 \<le> b" "b \<le> 1"
  shows "sorted_wrt (\<ge>) (map (\<lambda>m. py_round2 (start_price * b ^ m)) [0..<n])"
proof -
  have "py_round2 (start_price * b ^ j) \<le> py_round2 (start_price * b ^ i)" if "i < j" for i j :: nat
  proof (rule py_round2_mono)
    have "b ^ j \<le> b ^ i" using that assms(2,3) by (intro power_decreasing) simp_all
    then show "start_price * b ^ j \<le> start_price * b ^ i"
      using assms(1) by (rule mult_left_mono)
  qed
  then show ?thesis
    by (simp add: sorted_wrt_iff_nth_less)
qed

lemma within_a_year:
  assumes "- 100 \<le> p" and "p \<le> 100" and "n \<le> 12"
  shows "\<not> double_max < ((1 + p / 100) powr (1 / 12)) ^ n"
proof -
  let ?x = "1 + p / 100"
  let ?b = "?x powr (1 / 12)"
  have x: "0 \<le> ?x" "?x \<le> 2" using assms(1,2) by simp_all
  have b0: "0 \<le> ?b" by simp
  have "?b ^ n \<le> 2"
  proof (cases "?b \<le> 1")
    case True
    then have "?b ^ n \<le> 1" using b0 by (simp add: power_le_one)
    then show ?thesis by simp
  next
    case False
    then have "0 < ?x" using x(1) by (cases "?x = 0") simp_all
    then have r: "?b ^ 12 = ?x" by (rule root_power)
    from False have "?b ^ n \<le> ?b ^ 12" using assms(3) by (intro power_increasing) simp_all
    with r x(2) show ?thesis by simp
  qed
  with double_max_bounds(1) show ?thesis by simp
qed

lemma overflow_at_100000:
  "project_price_over_months 100 (JNum 10) 100000 = Inl OverflowError"
proof -
  let ?b = "(1 + 10 / 100 :: real) powr (1 / 12)"
  have b1: "1 \<le> ?b" by (intro ge_one_powr_ge_zero) simp_all
  have b12: "?b ^ 12 = 1 + 10 / 100" by (rule root_power) simp
  have "?b ^ (12 * 8) = (?b ^ 12) ^ 8" by (rule power_mult)
  moreover have "(2::real) \<le> (1 + 10 / 100) ^ 8" by (simp add: power_divide)
  ultimately have c: "2 \<le> ?b ^ (12 * 8)" unfolding b12 by simp
  have "(2::real) ^ 1024 \<le> (?b ^ (12 * 8)) ^ 1024"
    using c by (rule power_mono) simp
  also have "\<dots> = ?b ^ (12 * 8 * 1024)" by (rule power_mult[symmetric])
  also have "\<dots> \<le> ?b ^ 100000" using b1 by (rule power_increasing[rotated]) simp
  finally have "(2::real) ^ 1024 \<le> ?b ^ 100000" .
  with double_max_bounds(2) have "double_max < ?b ^ 100000"
    by (rule less_le_trans)
  then have "double_max < ?b ^ nat 100000" by simp
  then have "project_number 100 10 100000 = Inl OverflowError"
    by (subst project_number_cases) simp_all
  then show ?thesis by (simp add: project_price_over_months_def)
qed

lemma project_within_a_year:
  assumes "- 100 \<le> p" and "p \<le> 100" and "0 \<le> months" and "months \<le> 12"
  shows "project_price_over_months start_price (JNum p) months =
     Inr (Some (map (\<lambda>m. py_round2 (start_price
                                  * (1 + ((1 + p / 100) powr (1 / 12) - 1)) ^ m))
                       [0..<nat months + 1]))"
proof -
  have "nat months \<le> 12" using assms(4) by simp
  from within_a_year[OF assms(1,2) this] assms(1) show ?thesis
    by (simp add: project_price_over_months_def project_number_cases[OF assms(3)])
qed

text \<open>
  C3, as the specification has it: for every start amount, rate \<open>p\<close> and month count the
  series is strictly increasing when \<open>p > 0\<close>. With the start amount 0, the rate 12 and one
  month the series is 0, 0.
\<close>

theorem zero_price_stays_flat:
  "project_price_over_months 0 (JNum 12) 1 = Inr (Some [0, 0]) \<and> \<not> (0::real) < 0"
proof -
  have "[0..<nat 1 + 1] = [0, 1]"
    by (simp add: upt_conv_Cons)
  then show ?thesis
    using project_within_a_year[of 12 1 0]
    by (simp add: py_round2_def round_half_even_def)
qed

text \<open>
  C3, amended. For every start amount that is not negative, every rate \<open>p\<close> and every month
  count, a series that the projector returns is nondecreasing when \<open>p > 0\<close>, nonincreasing
  when \<open>p < 0\<close> and constant, at the rounded start amount, when \<open>p = 0\<close>; each entry is a whole
  number of hundredths. (Rounding to two decimals merges neighbouring entries, so the order is
  not strict. When the projector returns a series is the matter of C4.)
\<close>

theorem series_monotone:
  assumes "0 \<le> start_price"
    and "project_price_over_months start_price (JNum p) months = Inr (Some prices)"
  shows "(0 < p \<longrightarrow> sorted_wrt (\<le>) prices)
         \<and> (p < 0 \<longrightarrow> sorted_wrt (\<ge>) prices)
         \<and> (p = 0 \<longrightarrow> (\<forall>x \<in> set prices. x = py_round2 start_price))
         \<and> (\<forall>x \<in> set prices. \<exists>k::int. x = of_int k / 100)"
proof (cases "prices = []")
  case True
  then show ?thesis by simp
next
  case False
  from assms(2) have r: "project_number start_price p months = Inr (Some prices)"
    by (simp add: project_price_over_months_def)
  let ?series = "map (\<lambda>m. py_round2 (start_price * (1 + monthly_rate p) ^ m)) [0..<length prices]"
  have e: "prices = ?series" using r by (rule project_number_returned)
  have b: "- 100 \<le> p" using r False by (rule project_number_returned_base)
  have up: "0 < p \<longrightarrow> sorted_wrt (\<le>) ?series"
    using assms(1) growth_base(3)[OF b] by (auto intro: series_nondecreasing)
  have down: "p < 0 \<longrightarrow> sorted_wrt (\<ge>) ?series"
    using assms(1) growth_base(2,4)[OF b] by (auto intro: series_nonincreasing)
  have flat: "p = 0 \<longrightarrow> (\<forall>x \<in> set ?series. x = py_round2 start_price)"
    using growth_base(5)[OF b] by auto
  have cents: "\<forall>x \<in> set ?series. \<exists>k::int. x = of_int k / 100"
    using py_round2_hundredth by auto
  from up down flat cents show ?thesis
    by (subst e, subst e, subst e, subst e) blast
qed

text \<open>
  The amended C3 at the start amount 100, the rate 12 and 12 months.
\<close>

theorem series_monotone_witness:
  "(0::real) \<le> 100
   \<and> project_price_over_months 100 (JNum 12) 12
       = Inr (Some (map (\<lambda>m. py_round2 (100 * (1 + ((1 + 12 / 100) powr (1 / 12) - 1)) ^ m))
                     [0..<nat 12 + 1]))
   \<and> sorted_wrt (\<le>) (map (\<lambda>m. py_round2 (100 * (1 + ((1 + 12 / 100) powr (1 / 12) - 1)) ^ m))
                     [0..<nat 12 + 1])"
proof -
  have r: "project_price_over_months 100 (JNum 12) 12
       = Inr (Some (map (\<lambda>m. py_round2 (100 * (1 + ((1 + 12 / 100) powr (1 / 12) - 1)) ^ m))
                     [0..<nat 12 + 1]))"
    by (rule project_within_a_year) simp_all
  have "(0::real) \<le> 100" by simp
  from series_monotone[OF this r] r show ?thesis by simp
qed




section \<open>Properties of the resolver\<close>

lemma py_strip_Nil: "py_strip B [] = []"
  by (simp add: py_strip_def)

lemma empty_code_short_circuit:
  "get_inflation_from_worldbank B W st [] = ((JNull, JNull), st)"
  by (simp add: get_inflation_from_worldbank_def)

lemma blank_country_in_main:
  assumes "or_empty (dict_get it (ascii ''Country'') (PStr [])) = PStr s"
    and "py_strip B s = []"
    and "str_method (py_upper B) (or_empty (dict_get it (ascii ''Currency'') (PStr []))) = Inr cur"
  shows "\<exists>row. forecast_item B W st it = Inr (row, st)
               \<and> row_country row = [] \<and> row_inflation row = JNull"
  using assms
  by (simp add: forecast_item_def str_method_def empty_code_short_circuit Let_def)

text \<open>
  C7. The specification has every empty or blank country code return the pair of nulls at
  once, with no request and no cache entry. The resolver does so for the empty code (lemma
  \<open>empty_code_short_circuit\<close>), and \<^verbatim>\<open>main\<close> strips the field before the call, so that a
  blank field of a product record returns at once too (lemma \<open>blank_country_in_main\<close>). But
  in the resolver the test of line 67 comes before the strip of line 70: called with the code
  of one space, it passes the test, strips the code to the empty key, sends a request and
  caches the outcome under that key.
\<close>

theorem blank_code_is_looked_up:
  "calls (snd (get_inflation_from_worldbank ascii_builtins failing_world empty_state
                 (ascii '' ''))) = [[]]
   \<and> cache (snd (get_inflation_from_worldbank ascii_builtins failing_world empty_state
                   (ascii '' ''))) [] = Some (JNull, JNull)
   \<and> calls empty_state = [] \<and> cache empty_state [] = None"
  by (simp add: get_inflation_from_worldbank_def ascii_def py_strip_def is_space_def
        py_lower_def empty_state_def failing_world_def lookup_result_def Let_def)

text \<open>
  C8. For every country code whose stripped form is not empty, two calls in a row send at
  most one request and return the same result: the first call leaves its result in the
  cache under the stripped, lower-cased code, whatever the service did, and the second call
  returns it from there and changes nothing. The service may answer the second time in
  another way (\<open>W'\<close>); it is not asked.
\<close>

theorem resolve_twice:
  assumes "py_strip B country_code \<noteq> []"
  shows "case get_inflation_from_worldbank B W st country_code of
           (r1, st1) \<Rightarrow>
             (case get_inflation_from_worldbank B W' st1 country_code of
                (r2, st2) \<Rightarrow>
                  r2 = r1 \<and> st2 = st1
                  \<and> length (calls st1) \<le> length (calls st) + 1
                  \<and> cache st1 (py_lower B (py_strip B country_code)) = Some r1)"
proof -
  from assms have ne: "country_code \<noteq> []" by (auto simp: py_strip_Nil)
  show ?thesis
  proof (cases "cache st (py_lower B (py_strip B country_code))")
    case None
    with ne show ?thesis
      by (simp add: get_inflation_from_worldbank_def Let_def)
  next
    case (Some r)
    with ne show ?thesis
      by (simp add: get_inflation_from_worldbank_def Let_def)
  qed
qed

lemma strip_US: "py_strip ascii_builtins (ascii ''US'') = ascii ''US''"
  by (simp add: py_strip_def ascii_def is_space_def)

lemma lower_US: "py_lower ascii_builtins (ascii ''US'') = ascii ''us''"
  by (simp add: py_lower_def lower_at_def ascii_def upt_conv_Cons)

lemma reply_result: "lookup_result (Body worldbank_reply) = (JNum 3, JStr (ascii ''2023''))"
  by (simp add: lookup_result_def worldbank_reply_def scan_series_def dict_get_def ascii_def)

lemma resolve_US:
  "get_inflation_from_worldbank ascii_builtins steady_world empty_state (ascii ''US'')
     = ((JNum 3, JStr (ascii ''2023'')),
        \<lparr>cache = [ascii ''us'' \<mapsto> (JNum 3, JStr (ascii ''2023''))], calls = [ascii ''us'']\<rparr>)"
proof -
  have "ascii ''US'' \<noteq> []" by (simp add: ascii_def)
  then show ?thesis
    by (simp add: get_inflation_from_worldbank_def strip_US lower_US empty_state_def
          steady_world_def reply_result Let_def)
qed

text \<open>
  C8 for the code \<^verbatim>\<open>US\<close>: resolved from the reply first, then again while the service fails.
\<close>

theorem resolve_twice_witness:
  "py_strip ascii_builtins (ascii ''US'') \<noteq> []
   \<and> fst (get_inflation_from_worldbank ascii_builtins failing_world
            (snd (get_inflation_from_worldbank ascii_builtins steady_world empty_state (ascii ''US'')))
            (ascii ''US''))
     = (JNum 3, JStr (ascii ''2023''))"
proof -
  have s: "py_strip ascii_builtins (ascii ''US'') \<noteq> []"
    by (simp add: strip_US) (simp add: ascii_def)
  from resolve_twice[OF s, where W = steady_world and st = empty_state and W' = failing_world]
  have "fst (get_inflation_from_worldbank ascii_builtins failing_world
            (snd (get_inflation_from_worldbank ascii_builtins steady_world empty_state (ascii ''US'')))
            (ascii ''US''))
     = fst (get_inflation_from_worldbank ascii_builtins steady_world empty_state (ascii ''US''))"
    by (auto split: prod.splits)
  with s show ?thesis by (simp add: resolve_US)
qed

section \<open>Properties of the forecast and of the loop\<close>

subsection \<open>Running the forecast on some inputs\<close>

lemma product_fields:
  "dict_get (product name price months country currency) (ascii ''Product'') d = PStr (ascii name)"
  "dict_get (product name price months country currency) (ascii ''Current Price'') d = PStr (ascii price)"
  "dict_get (product name price months country currency) (ascii ''Forecast Months'') d = PStr (ascii months)"
  "dict_get (product name price months country currency) (ascii ''Country'') d = PStr (ascii country)"
  "dict_get (product name price months country currency) (ascii ''Currency'') d = PStr (ascii currency)"
  by (simp_all add: product_def dict_get_def ascii_def)

lemma int_abc: "int_of_text ascii_builtins (ascii ''abc'') = Inl ValueError"
  by (simp add: int_of_text_def int_space_def ascii_def is_digit_def decimal_value_def
        digits_exceed_def ascii_builtins_def)


lemma text_100: "price_text ascii_builtins (PStr (ascii ''100'')) = ascii ''100''"
  by (simp add: price_text_def py_strip_def is_space_def ascii_def replace_char_def)

lemma search_100:
  "price_search ascii_builtins (ascii ''100'') = Some (None, [], ascii ''100'', None)"
  by (simp add: ascii_def match_here_def or_else_def num_char_def is_digit_def
        decimal_value_def currency_sign_def ascii_letter_def is_space_def)

lemma matched_100:
  "matched_parse ascii_builtins (None, [], ascii ''100'', None) (ascii ''USD'')
     = Some (100, [36], ascii ''USD'')"
  by (simp add: matched_parse_def ascii_def replace_char_def py_float_def is_digit_def
        decimal_value_def group_or_def str_or_def py_upper_def upper_char_def dict_get_def
        CURRENCY_SYMBOLS_def)

lemma parse_100:
  "parse_price ascii_builtins (PStr (ascii ''100'')) (ascii ''USD'') = Inr (Some (100, [36], ascii ''USD''))"
  by (simp add: parse_price_def text_100 search_100 matched_100)

lemma round_100: "py_round2 100 = 100"
  by (simp add: py_round2_def round_half_even_def)

lemma project_zero_months: "project_price_over_months 100 (JNum 3) 0 = Inr (Some [100])"
  using project_within_a_year[of 3 0 100] by (simp add: round_100)



lemma forecast_abc:
  "forecast_price ascii_builtins (PStr (ascii ''100'')) (JNum 3) (PStr (ascii ''abc'')) (ascii ''USD'')
     = Inr (Some (100, [100], [36]))"
  by (simp add: forecast_price_def parse_100 coerce_months_def int_abc project_zero_months str_or_def)


lemma item_abc:
  "forecast_item ascii_builtins steady_world empty_state
     (product ''Widget'' ''100'' ''abc'' ''US'' ''USD'') = Inl ValueError"
proof -
  have t: "ascii ''US'' \<noteq> []" "ascii ''USD'' \<noteq> []"
    by (simp_all add: ascii_def)
  have u: "str_or (ascii ''USD'') (ascii ''USD'') = ascii ''USD''"
    by (simp add: str_or_def)
  show ?thesis
    by (simp add: forecast_item_def product_fields or_empty_def t str_method_def strip_US
          upper_USD u resolve_US price_columns_def int_abc Let_def)
qed


subsection \<open>The claims about the forecast and the loop\<close>

lemma forecast_item_product:
  assumes "forecast_item B W st it = Inr (row, st')"
  shows "row_product row = dict_get it (ascii ''Product'') (PStr [])"
  using assms
  by (auto simp: forecast_item_def Let_def split: sum.splits prod.splits if_splits)

lemma forecast_loop_rows:
  "forecast_loop B W st forecasts items = Inr (rows, st') \<Longrightarrow>
     \<exists>new. rows = forecasts @ new \<and> length new = length items
           \<and> map row_product new = map (\<lambda>it. dict_get it (ascii ''Product'') (PStr [])) items"
proof (induction items arbitrary: st forecasts)
  case Nil
  then show ?case by simp
next
  case (Cons it items)
  from Cons.prems obtain row st1 where
    i: "forecast_item B W st it = Inr (row, st1)" and
    l: "forecast_loop B W st1 (forecasts @ [row]) items = Inr (rows, st')"
    by (auto split: sum.splits)
  from Cons.IH[OF l] obtain new where
    n: "rows = (forecasts @ [row]) @ new" "length new = length items"
       "map row_product new = map (\<lambda>it. dict_get it (ascii ''Product'') (PStr [])) items"
    by (elim exE conjE)
  show ?case
    by (rule exI[of _ "row # new"]) (simp add: n forecast_item_product[OF i])
qed

lemma item_no_country:
  "\<exists>row. forecast_item ascii_builtins W st (product ''Gadget'' ''50'' ''6'' '''' ''USD'')
           = Inr (row, st)"
proof -
  have t: "ascii '''' = []" "ascii ''USD'' \<noteq> []"
    by (simp_all add: ascii_def)
  show ?thesis
    by (simp add: forecast_item_def product_fields or_empty_def t str_method_def py_strip_Nil
          upper_USD get_inflation_from_worldbank_def Let_def)
qed

text \<open>
  C1. The specification lets no exception leave the orchestrator, and has the month count
  default to 0 when it is not an integer. \<^verbatim>\<open>forecast_price\<close> does so (second part), but
  line 247 of \<^verbatim>\<open>main\<close> calls \<^verbatim>\<open>int\<close> on the field before \<^verbatim>\<open>forecast_price\<close> is entered
  and outside any \<^verbatim>\<open>try\<close>: with the months field \<^verbatim>\<open>abc\<close> the loop ends in
  \<^verbatim>\<open>ValueError\<close> (first part).
\<close>

theorem months_text_escapes_main:
  "forecast_loop ascii_builtins steady_world empty_state []
       [product ''Widget'' ''100'' ''abc'' ''US'' ''USD''] = Inl ValueError
   \<and> forecast_price ascii_builtins (PStr (ascii ''100'')) (JNum 3) (PStr (ascii ''abc''))
         (ascii ''USD'') = Inr (Some (100, [100], [36]))"
  by (simp add: item_abc forecast_abc)

text \<open>
  C2. The specification has the loop produce one result per product, in order, for every
  batch. For the batch of a product without a country and a product whose months field is
  \<^verbatim>\<open>abc\<close> the loop raises at the second product and produces no list at all. (When the loop
  does return, the list has one row per product in the order of the input: lemma
  \<open>forecast_loop_rows\<close>.)
\<close>

theorem batch_lost_on_months_text:
  "forecast_loop ascii_builtins steady_world empty_state []
       [product ''Gadget'' ''50'' ''6'' '''' ''USD'',
        product ''Widget'' ''100'' ''abc'' ''US'' ''USD''] = Inl ValueError"
proof -
  from item_no_country[of steady_world empty_state] obtain row where
    "forecast_item ascii_builtins steady_world empty_state
       (product ''Gadget'' ''50'' ''6'' '''' ''USD'') = Inr (row, empty_state)"
    by (elim exE)
  then show ?thesis by (simp add: item_abc)
qed




end
